theory Spec2Isabelle
  imports Main "HOL-Library.Word" "HOL-Library.AList"
begin

section \<open>JavaScript strings\<close>

text \<open>
  A JavaScript string is a sequence of UTF-16 code units, so a string of \<^verbatim>\<open>app.js\<close> is a
  list of 16-bit words. \<open>js\<close> turns an ASCII literal of the source into such a list.
\<close>

type_synonym cu = "16 word"
type_synonym jsstring = "cu list"

definition js :: "string \<Rightarrow> jsstring" where
  "js s = map of_char s"

text \<open>
  The code units \<^verbatim>\<open>String.prototype.trim\<close> removes: ECMAScript's WhiteSpace and
  LineTerminator productions (TAB, LF, VT, FF, CR, SP, NBSP, U+1680, U+2000..U+200A, LS, PS,
  U+202F, U+205F, U+3000 and the byte-order mark U+FEFF).
\<close>

definition isWhiteSpace :: "cu \<Rightarrow> bool" where
  "isWhiteSpace c \<longleftrightarrow>
     c \<in> {0x9, 0xA, 0xB, 0xC, 0xD, 0x20, 0xA0, 0x1680, 0x2028, 0x2029, 0x202F, 0x205F,
          0x3000, 0xFEFF}
     \<or> (0x2000 \<le> c \<and> c \<le> 0x200A)"

definition trim :: "jsstring \<Rightarrow> jsstring" where
  "trim s = rev (dropWhile isWhiteSpace (rev (dropWhile isWhiteSpace s)))"

text \<open>\<^verbatim>\<open>s.startsWith(p)\<close>.\<close>

definition startsWith :: "jsstring \<Rightarrow> jsstring \<Rightarrow> bool" where
  "startsWith s p \<longleftrightarrow> take (length p) s = p"

text \<open>\<^verbatim>\<open>s.indexOf(p)\<close>: the least index where \<open>p\<close> occurs; \<open>None\<close> is the source's -1.\<close>

fun indexOf :: "jsstring \<Rightarrow> jsstring \<Rightarrow> nat option" where
  "indexOf [] p = (if p = [] then Some 0 else None)"
| "indexOf (c # cs) p =
     (if startsWith (c # cs) p then Some 0 else map_option Suc (indexOf cs p))"

text \<open>
  \<^verbatim>\<open>s.substring(a)\<close> and \<^verbatim>\<open>s.substring(0, b)\<close> for indices that are not negative: both clamp
  at the length of the string, as \<open>drop\<close> and \<open>take\<close> do.
\<close>

definition substring_from :: "jsstring \<Rightarrow> nat \<Rightarrow> jsstring" where
  "substring_from s a = drop a s"

definition substring_to :: "jsstring \<Rightarrow> nat \<Rightarrow> jsstring" where
  "substring_to s b = take b s"

text \<open>\<^verbatim>\<open>raw.replace(/^\uFEFF/, "")\<close>: one leading byte-order mark is removed.\<close>

definition strip_bom :: "jsstring \<Rightarrow> jsstring" where
  "strip_bom s = (case s of [] \<Rightarrow> [] | c # cs \<Rightarrow> if c = 0xFEFF then cs else s)"

text \<open>\<^verbatim>\<open>s.replace(/\r\n/g, "\n")\<close>: every CR LF pair, scanned from the left, becomes LF.\<close>

fun crlf_to_lf :: "jsstring \<Rightarrow> jsstring" where
  "crlf_to_lf (c # d # cs) =
     (if c = 0xD \<and> d = 0xA then 0xA # crlf_to_lf cs else c # crlf_to_lf (d # cs))"
| "crlf_to_lf cs = cs"

section \<open>Path algebra (Node's \<^verbatim>\<open>path\<close> module, POSIX flavour)\<close>

text \<open>
  \<^verbatim>\<open>path.resolve\<close> and \<^verbatim>\<open>path.dirname\<close> are library code of Node. They are modelled after
  Node's POSIX implementation: \<^verbatim>\<open>path.resolve(p)\<close> prefixes the working directory unless \<open>p\<close>
  starts with a slash, then drops empty and \<^verbatim>\<open>.\<close> segments and lets each \<^verbatim>\<open>..\<close> segment
  remove the segment before it (nothing is removed at the root).
\<close>

abbreviation slash :: cu where
  "slash \<equiv> 0x2F"

fun split_slash :: "jsstring \<Rightarrow> jsstring list" where
  "split_slash [] = [[]]"
| "split_slash (c # cs) =
     (if c = slash then [] # split_slash cs
      else (case split_slash cs of [] \<Rightarrow> [[c]] | s # ss \<Rightarrow> (c # s) # ss))"

definition normalize_step :: "jsstring list \<Rightarrow> jsstring \<Rightarrow> jsstring list" where
  "normalize_step acc seg =
     (if seg = [] \<or> seg = js ''.'' then acc
      else if seg = js ''..'' then butlast acc
      else acc @ [seg])"

definition normalize_segments :: "jsstring list \<Rightarrow> jsstring list" where
  "normalize_segments segs = foldl normalize_step [] segs"

definition join_absolute :: "jsstring list \<Rightarrow> jsstring" where
  "join_absolute segs = (if segs = [] then [slash] else concat (map (\<lambda>s. slash # s) segs))"

definition isAbsolute :: "jsstring \<Rightarrow> bool" where
  "isAbsolute p \<longleftrightarrow> (case p of [] \<Rightarrow> False | c # _ \<Rightarrow> c = slash)"

definition path_resolve :: "jsstring \<Rightarrow> jsstring \<Rightarrow> jsstring" where
  "path_resolve cwd p =
     join_absolute (normalize_segments (split_slash
       (if isAbsolute p then p else cwd @ [slash] @ p)))"

text \<open>
  \<^verbatim>\<open>path.dirname(p)\<close>: trailing slashes are skipped, then the text before the last slash is
  returned; a path with no slash past its first character has the directory \<^verbatim>\<open>/\<close> (when it
  starts with a slash) or \<^verbatim>\<open>.\<close>.
\<close>

definition path_dirname :: "jsstring \<Rightarrow> jsstring" where
  "path_dirname p =
     (case p of
        [] \<Rightarrow> js ''.''
      | c # cs \<Rightarrow>
          (let hasRoot = (c = slash);
               r = dropWhile (\<lambda>x. x \<noteq> slash) (dropWhile (\<lambda>x. x = slash) (rev cs));
               end = length r
           in if r = [] then (if hasRoot then js ''/'' else js ''.'')
              else if hasRoot \<and> end = 1 then js ''//''
              else take end p))"

section \<open>Errors\<close>

text \<open>
  Everything the source can throw: the two \<^verbatim>\<open>Error\<close>s of \<open>resolveSafePath\<close> and the
  failures of the file-system calls, which carry a POSIX error code.
\<close>

datatype errno =
  ENOENT | EEXIST | EISDIR | ENOTDIR | ENOTEMPTY | EINVAL | EBADF | EACCES | EPERM | ENOSPC | EIO

datatype js_error =
  EmptyPath
| PathTraversal jsstring
| FsError errno

section \<open>Validation\<close>

text \<open>
  \<open>resolveSafePath\<close> (app.js, lines 35 to 43). The working directory \<^verbatim>\<open>process.cwd()\<close> is the
  parameter \<open>cwd\<close>; \<^verbatim>\<open>path.resolve(".")\<close> is \<open>path_resolve cwd ''.''\<close>. A \<^verbatim>\<open>throw\<close> is \<open>Inl\<close>.
\<close>

definition resolveSafePath :: "jsstring \<Rightarrow> jsstring \<Rightarrow> js_error + jsstring" where
  "resolveSafePath cwd rawPath =
     (if rawPath = [] \<or> trim rawPath = [] then Inl EmptyPath
      else
        (let resolved = path_resolve cwd (trim rawPath);
             cwd' = path_resolve cwd (js ''.'')
         in if \<not> startsWith resolved cwd' then Inl (PathTraversal rawPath)
            else Inr resolved))"

text \<open>
  The containment the sandbox is meant to enforce: a path is inside the root when it is the
  root or continues it with a slash, that is, at a segment boundary.
\<close>

definition within_root :: "jsstring \<Rightarrow> jsstring \<Rightarrow> bool" where
  "within_root root p \<longleftrightarrow> p = root \<or> startsWith p (root @ [slash])"

section \<open>The log sink\<close>

text \<open>
  A line of the log is its severity (\<open>logger.info\<close>, \<open>logger.success\<close>, \<open>logger.warn\<close>,
  \<open>logger.error\<close> with the optional cause) or a bare \<^verbatim>\<open>console.log\<close>, and the message template
  of the source with the values it interpolates. Timestamps and the layout of a line are left
  out.
\<close>

datatype msg =
  FileAlreadyExists jsstring
| FileCreated jsstring
| CreateFileFailed jsstring
| FileNotFoundCannotDelete jsstring
| FileDeleted jsstring
| DeleteFileFailed jsstring
| SourceFileNotFound jsstring
| DestinationAlreadyExists jsstring
| FileRenamed jsstring jsstring
| RenameFileFailed jsstring jsstring
| ContentAppendedTo jsstring
| AddToFileFailed jsstring
| FileNotFound jsstring
| ContentsOf jsstring
| ReadFileFailed jsstring
| FileCopied jsstring jsstring
| CopyFileFailed jsstring jsstring
| ListDirectoryFailed jsstring
| PathNotFound jsstring
| InfoFor jsstring
| FileInfoFailed jsstring
| ReceivedEmptyCommand
| CommandReceived jsstring
| RenameSyntax
| AddToFileSyntax
| CopyFileSyntax
| UnknownCommand jsstring
| AvailableCommands
| UnexpectedError

datatype out_line =
  Rule
| Text jsstring
| EmptyFilePlaceholder
| EmptyDirectory
| DirEntry bool jsstring
| InfoType bool
| InfoSize nat
| InfoCreated
| InfoModified
| InfoAccessed
| Bullet jsstring

datatype entry =
  Info msg
| Success msg
| Warn msg
| Error msg "js_error option"
| Print out_line

section \<open>The world: file system, command file, watch state\<close>

text \<open>
  The file system is a table from absolute paths to nodes; the root directory always exists.
  A file holds the text that reading it as UTF-8 yields. Every file-system call first asks
  the fault plan of the world whether it fails at this point of time (permission denied,
  disk full, an I/O error: any code at any call), and advances the clock; a call the plan
  lets pass behaves as POSIX describes on the table. The command file \<^verbatim>\<open>./command.txt\<close> is a
  file of the working directory like any other, so a command that names it changes it. The
  watcher reads it through the handle it opened at start-up, and a handle follows the file,
  not the path: \<open>cmdhandle\<close> is the path that names the file of the handle now, or, once no
  path names it any more (it was unlinked, or replaced by a rename), the text it still
  holds. \<open>processing\<close> and \<open>lastContent\<close> are the two variables of the watcher's closure.
\<close>

datatype node = File jsstring | Dir

type_synonym fs = "(jsstring \<times> node) list"

datatype handle = Linked jsstring | Orphaned jsstring

record world =
  cwd :: jsstring
  nodes :: fs
  fault :: "nat \<Rightarrow> errno option"
  clock :: nat
  log :: "entry list"
  cmdhandle :: handle
  processing :: bool
  lastContent :: jsstring

text \<open>
  A computation of the source: it runs on the world and either returns a value or throws.
  \<open>andThen\<close> is sequencing (an \<^verbatim>\<open>await\<close> or a plain statement followed by the rest),
  \<open>try_catch\<close> and \<open>try_finally\<close> are the \<^verbatim>\<open>catch\<close> and \<^verbatim>\<open>finally\<close> clauses of a \<^verbatim>\<open>try\<close>.
\<close>

type_synonym 'a io = "world \<Rightarrow> (js_error + 'a) \<times> world"

definition ret :: "'a \<Rightarrow> 'a io" where
  "ret x w = (Inr x, w)"

definition andThen :: "'a io \<Rightarrow> ('a \<Rightarrow> 'b io) \<Rightarrow> 'b io" where
  "andThen m f w = (case m w of (Inl e, w') \<Rightarrow> (Inl e, w') | (Inr x, w') \<Rightarrow> f x w')"

definition try_catch :: "'a io \<Rightarrow> (js_error \<Rightarrow> 'a io) \<Rightarrow> 'a io" where
  "try_catch m h w = (case m w of (Inl e, w') \<Rightarrow> h e w' | (Inr x, w') \<Rightarrow> (Inr x, w'))"

definition try_finally :: "'a io \<Rightarrow> (world \<Rightarrow> world) \<Rightarrow> 'a io" where
  "try_finally m f w = (case m w of (r, w') \<Rightarrow> (r, f w'))"

definition logger :: "entry \<Rightarrow> unit io" where
  "logger e w = (Inr (), w\<lparr>log := log w @ [e]\<rparr>)"

subsection \<open>File-system calls\<close>

definition lookup :: "fs \<Rightarrow> jsstring \<Rightarrow> node option" where
  "lookup t p = (if p = js ''/'' then Some Dir else map_of t p)"

definition syscall :: "(fs \<Rightarrow> errno + 'a \<times> fs) \<Rightarrow> 'a io" where
  "syscall f w =
     (let w' = w\<lparr>clock := Suc (clock w)\<rparr>
      in case fault w (clock w) of
           Some e \<Rightarrow> (Inl (FsError e), w')
         | None \<Rightarrow>
             (case f (nodes w) of
                Inl e \<Rightarrow> (Inl (FsError e), w')
              | Inr (x, t) \<Rightarrow> (Inr x, w'\<lparr>nodes := t\<rparr>)))"

text \<open>
  A call that can take the name of a file away (\<^verbatim>\<open>unlink\<close>, \<^verbatim>\<open>rename\<close>): when it succeeds, the
  handle of the command file is brought up to date by \<open>g\<close>, which sees the table as it was
  before the call.
\<close>

definition syscall_moving :: "(fs \<Rightarrow> handle \<Rightarrow> handle) \<Rightarrow> (fs \<Rightarrow> errno + 'a \<times> fs) \<Rightarrow> 'a io" where
  "syscall_moving g f w =
     (case syscall f w of
        (Inl e, w') \<Rightarrow> (Inl e, w')
      | (Inr x, w') \<Rightarrow> (Inr x, w'\<lparr>cmdhandle := g (nodes w) (cmdhandle w)\<rparr>))"

text \<open>The text of the file at a path, and the text the handle of the command file reads.\<close>

definition text_at :: "fs \<Rightarrow> jsstring \<Rightarrow> jsstring" where
  "text_at t p = (case lookup t p of Some (File c) \<Rightarrow> c | _ \<Rightarrow> [])"

definition handle_text :: "world \<Rightarrow> jsstring" where
  "handle_text w =
     (case cmdhandle w of Linked p \<Rightarrow> text_at (nodes w) p | Orphaned c \<Rightarrow> c)"

text \<open>
  The bytes of a text in UTF-8, as Node writes a string: one to three bytes for a code unit,
  four for a surrogate pair, and the replacement character U+FFFD for a surrogate that
  stands alone. \<open>cmdfile\<close> is the content of the command file in bytes, which
  \<^verbatim>\<open>file.stat()\<close> measures and \<^verbatim>\<open>file.read\<close> copies.
\<close>

definition encode_unit :: "cu \<Rightarrow> 8 word list" where
  "encode_unit c =
     (if c < 0x80 then [ucast c]
      else if c < 0x800 then
        [of_nat (0xC0 + unat c div 64), of_nat (0x80 + unat c mod 64)]
      else if 0xD800 \<le> c \<and> c \<le> 0xDFFF then [0xEF, 0xBF, 0xBD]
      else
        [of_nat (0xE0 + unat c div 4096), of_nat (0x80 + unat c div 64 mod 64),
         of_nat (0x80 + unat c mod 64)])"

definition encode_pair :: "cu \<Rightarrow> cu \<Rightarrow> 8 word list" where
  "encode_pair hi lo =
     (let cp = 0x10000 + (unat hi - 0xD800) * 1024 + (unat lo - 0xDC00)
      in [of_nat (0xF0 + cp div 262144), of_nat (0x80 + cp div 4096 mod 64),
          of_nat (0x80 + cp div 64 mod 64), of_nat (0x80 + cp mod 64)])"

fun utf8_encode :: "jsstring \<Rightarrow> 8 word list" where
  "utf8_encode [] = []"
| "utf8_encode [c] = encode_unit c"
| "utf8_encode (c # d # cs) =
     (if 0xD800 \<le> c \<and> c \<le> 0xDBFF \<and> 0xDC00 \<le> d \<and> d \<le> 0xDFFF
      then encode_pair c d @ utf8_encode cs
      else encode_unit c @ utf8_encode (d # cs))"

definition cmdfile :: "world \<Rightarrow> 8 word list" where
  "cmdfile w = utf8_encode (handle_text w)"

text \<open>\<^verbatim>\<open>fs.access(p)\<close>: succeeds when the path names a node.\<close>

definition fs_access :: "jsstring \<Rightarrow> unit io" where
  "fs_access p =
     syscall (\<lambda>t. case lookup t p of None \<Rightarrow> Inl ENOENT | Some _ \<Rightarrow> Inr ((), t))"

text \<open>
  \<^verbatim>\<open>fs.mkdir(p, { recursive: true })\<close>: every missing directory on the way to \<open>p\<close>, and \<open>p\<close>
  itself, is created; a file in the way is an error.
\<close>

definition dir_chain :: "jsstring \<Rightarrow> jsstring list" where
  "dir_chain p =
     (let segs = filter (\<lambda>s. s \<noteq> []) (split_slash p)
      in map (\<lambda>n. join_absolute (take n segs)) [1..<Suc (length segs)])"

fun mkdir_chain :: "jsstring \<Rightarrow> jsstring list \<Rightarrow> fs \<Rightarrow> errno + fs" where
  "mkdir_chain target [] t = Inr t"
| "mkdir_chain target (d # ds) t =
     (case lookup t d of
        Some Dir \<Rightarrow> mkdir_chain target ds t
      | Some (File _) \<Rightarrow> Inl (if d = target then EEXIST else ENOTDIR)
      | None \<Rightarrow> mkdir_chain target ds (t @ [(d, Dir)]))"

definition fs_mkdir_recursive :: "jsstring \<Rightarrow> unit io" where
  "fs_mkdir_recursive p =
     syscall (\<lambda>t. case mkdir_chain p (dir_chain p) t of
                    Inl e \<Rightarrow> Inl e | Inr t' \<Rightarrow> Inr ((), t'))"

text \<open>
  \<^verbatim>\<open>fs.open(p, "w")\<close> creates the file or truncates it, \<^verbatim>\<open>fs.open(p, "a")\<close> creates it or
  leaves its content; the handle is the path it was opened with. \<^verbatim>\<open>handle.write(text)\<close> on
  a handle opened for appending adds the text at the end.
\<close>

datatype open_flag = FlagW | FlagA

definition fs_open :: "jsstring \<Rightarrow> open_flag \<Rightarrow> jsstring io" where
  "fs_open p flag =
     syscall (\<lambda>t.
       case lookup t p of
         Some Dir \<Rightarrow> Inl EISDIR
       | Some (File c) \<Rightarrow>
           Inr (p, if flag = FlagW then AList.update p (File []) t else t)
       | None \<Rightarrow>
           (case lookup t (path_dirname p) of
              None \<Rightarrow> Inl ENOENT
            | Some (File _) \<Rightarrow> Inl ENOTDIR
            | Some Dir \<Rightarrow> Inr (p, t @ [(p, File [])])))"

definition handle_write :: "jsstring \<Rightarrow> jsstring \<Rightarrow> unit io" where
  "handle_write h content =
     syscall (\<lambda>t.
       case lookup t h of
         Some (File c) \<Rightarrow> Inr ((), AList.update h (File (c @ content)) t)
       | _ \<Rightarrow> Inl EBADF)"

definition handle_close :: "jsstring \<Rightarrow> unit io" where
  "handle_close h = syscall (\<lambda>t. Inr ((), t))"

text \<open>
  \<^verbatim>\<open>fs.unlink(p)\<close> removes a file, never a directory. A handle on the file keeps its text.
\<close>

definition unlink_handle :: "jsstring \<Rightarrow> fs \<Rightarrow> handle \<Rightarrow> handle" where
  "unlink_handle p t h =
     (case h of
        Linked q \<Rightarrow> if q = p then Orphaned (text_at t q) else h
      | Orphaned c \<Rightarrow> h)"

definition fs_unlink :: "jsstring \<Rightarrow> unit io" where
  "fs_unlink p =
     syscall_moving (unlink_handle p) (\<lambda>t.
       case lookup t p of
         None \<Rightarrow> Inl ENOENT
       | Some Dir \<Rightarrow> Inl EISDIR
       | Some (File _) \<Rightarrow> Inr ((), AList.delete p t))"

text \<open>
  \<^verbatim>\<open>fs.rename(old, new)\<close>: the node and everything below it move; an existing file, or an
  empty directory for a directory, at the new path is replaced. A handle on a file that
  moves follows it to its new path; a handle on the file that is replaced keeps its text.
\<close>

definition below :: "jsstring \<Rightarrow> jsstring \<Rightarrow> bool" where
  "below d p \<longleftrightarrow> startsWith p (d @ [slash])"

definition move_key :: "jsstring \<Rightarrow> jsstring \<Rightarrow> jsstring \<Rightarrow> jsstring" where
  "move_key old new k =
     (if k = old then new
      else if below old k then new @ drop (length old) k
      else k)"

definition rename_handle :: "jsstring \<Rightarrow> jsstring \<Rightarrow> fs \<Rightarrow> handle \<Rightarrow> handle" where
  "rename_handle old new t h =
     (case h of
        Linked q \<Rightarrow>
          if q = old \<or> below old q then Linked (move_key old new q)
          else if q = new then Orphaned (text_at t q)
          else h
      | Orphaned c \<Rightarrow> h)"

definition fs_rename :: "jsstring \<Rightarrow> jsstring \<Rightarrow> unit io" where
  "fs_rename old new =
     syscall_moving (rename_handle old new) (\<lambda>t.
       case lookup t old of
         None \<Rightarrow> Inl ENOENT
       | Some n \<Rightarrow>
           if old = new then Inr ((), t)
           else if below old new then Inl EINVAL
           else
             (case lookup t (path_dirname new) of
                None \<Rightarrow> Inl ENOENT
              | Some (File _) \<Rightarrow> Inl ENOTDIR
              | Some Dir \<Rightarrow>
                  (let moved = map (\<lambda>(k, v). (move_key old new k, v)) (AList.delete new t)
                   in case (n, lookup t new) of
                        (File _, Some Dir) \<Rightarrow> Inl EISDIR
                      | (Dir, Some (File _)) \<Rightarrow> Inl ENOTDIR
                      | (Dir, Some Dir) \<Rightarrow>
                          if \<exists>k \<in> set (map fst t). below new k then Inl ENOTEMPTY
                          else Inr ((), moved)
                      | _ \<Rightarrow> Inr ((), moved))))"

text \<open>\<^verbatim>\<open>fs.readFile(p, "utf-8")\<close>.\<close>

definition fs_readFile :: "jsstring \<Rightarrow> jsstring io" where
  "fs_readFile p =
     syscall (\<lambda>t.
       case lookup t p of
         None \<Rightarrow> Inl ENOENT
       | Some Dir \<Rightarrow> Inl EISDIR
       | Some (File c) \<Rightarrow> Inr (c, t))"

text \<open>\<^verbatim>\<open>fs.copyFile(src, dest)\<close>: the destination is created or overwritten.\<close>

definition fs_copyFile :: "jsstring \<Rightarrow> jsstring \<Rightarrow> unit io" where
  "fs_copyFile src dest =
     syscall (\<lambda>t.
       case lookup t src of
         None \<Rightarrow> Inl ENOENT
       | Some Dir \<Rightarrow> Inl EISDIR
       | Some (File c) \<Rightarrow>
           (case lookup t dest of
              Some Dir \<Rightarrow> Inl EISDIR
            | Some (File _) \<Rightarrow> Inr ((), AList.update dest (File c) t)
            | None \<Rightarrow>
                (case lookup t (path_dirname dest) of
                   None \<Rightarrow> Inl ENOENT
                 | Some (File _) \<Rightarrow> Inl ENOTDIR
                 | Some Dir \<Rightarrow> Inr ((), t @ [(dest, File c)]))))"

text \<open>
  \<^verbatim>\<open>fs.readdir(p, { withFileTypes: true })\<close>: the entries directly below \<open>p\<close>, each with its
  name and whether it is a directory.
\<close>

definition path_basename :: "jsstring \<Rightarrow> jsstring" where
  "path_basename p = rev (takeWhile (\<lambda>x. x \<noteq> slash) (rev p))"

definition children :: "fs \<Rightarrow> jsstring \<Rightarrow> (jsstring \<times> bool) list" where
  "children t p =
     map (\<lambda>(k, v). (path_basename k, v = Dir))
       (filter (\<lambda>(k, v). k \<noteq> js ''/'' \<and> path_dirname k = p) t)"

definition fs_readdir :: "jsstring \<Rightarrow> (jsstring \<times> bool) list io" where
  "fs_readdir p =
     syscall (\<lambda>t.
       case lookup t p of
         None \<Rightarrow> Inl ENOENT
       | Some (File _) \<Rightarrow> Inl ENOTDIR
       | Some Dir \<Rightarrow> Inr (children t p, t))"

text \<open>
  \<^verbatim>\<open>fs.stat(p)\<close>: of the fields the source prints, the kind and the size are kept; the size
  of a file is the length of its text in UTF-8, the size of a directory is that of one block.
\<close>

fun utf8_length :: "jsstring \<Rightarrow> nat" where
  "utf8_length [] = 0"
| "utf8_length [c] = (if c < 0x80 then 1 else if c < 0x800 then 2 else 3)"
| "utf8_length (c # d # cs) =
     (if c < 0x80 then 1 + utf8_length (d # cs)
      else if c < 0x800 then 2 + utf8_length (d # cs)
      else if 0xD800 \<le> c \<and> c \<le> 0xDBFF \<and> 0xDC00 \<le> d \<and> d \<le> 0xDFFF then 4 + utf8_length cs
      else 3 + utf8_length (d # cs))"

record stats =
  isDirectory :: bool
  byteSize :: nat

definition stat_of :: "node \<Rightarrow> stats" where
  "stat_of n =
     (case n of
        Dir \<Rightarrow> \<lparr>isDirectory = True, byteSize = 4096\<rparr>
      | File c \<Rightarrow> \<lparr>isDirectory = False, byteSize = utf8_length c\<rparr>)"

definition fs_stat :: "jsstring \<Rightarrow> stats io" where
  "fs_stat p =
     syscall (\<lambda>t. case lookup t p of None \<Rightarrow> Inl ENOENT | Some n \<Rightarrow> Inr (stat_of n, t))"

section \<open>Commands\<close>

text \<open>
  The command functions of app.js (lines 45 to 225). Each is a \<^verbatim>\<open>try\<close> block, given here as
  the function with the suffix \<open>_try\<close>, and its \<^verbatim>\<open>catch\<close> clause, which logs the error.
\<close>

definition safePath :: "jsstring \<Rightarrow> jsstring io" where
  "safePath rawPath w = (resolveSafePath (cwd w) rawPath, w)"

definition pathExists :: "jsstring \<Rightarrow> bool io" where
  "pathExists filePath =
     try_catch (andThen (fs_access filePath) (\<lambda>_. ret True)) (\<lambda>_. ret False)"

fun print_lines :: "out_line list \<Rightarrow> unit io" where
  "print_lines [] = ret ()"
| "print_lines (l # ls) = andThen (logger (Print l)) (\<lambda>_. print_lines ls)"

definition createFile_try :: "jsstring \<Rightarrow> unit io" where
  "createFile_try rawPath =
     andThen (safePath rawPath) (\<lambda>filePath.
     andThen (pathExists filePath) (\<lambda>exists.
       if exists then logger (Warn (FileAlreadyExists filePath))
       else
         andThen (fs_mkdir_recursive (path_dirname filePath)) (\<lambda>_.
         andThen (fs_open filePath FlagW) (\<lambda>handle.
         andThen (handle_close handle) (\<lambda>_.
         logger (Success (FileCreated filePath)))))))"

definition createFile :: "jsstring \<Rightarrow> unit io" where
  "createFile rawPath =
     try_catch (createFile_try rawPath)
       (\<lambda>err. logger (Error (CreateFileFailed rawPath) (Some err)))"

definition deleteFile_try :: "jsstring \<Rightarrow> unit io" where
  "deleteFile_try rawPath =
     andThen (safePath rawPath) (\<lambda>filePath.
     andThen (pathExists filePath) (\<lambda>exists.
       if \<not> exists then logger (Warn (FileNotFoundCannotDelete filePath))
       else
         andThen (fs_unlink filePath) (\<lambda>_.
         logger (Success (FileDeleted filePath)))))"

definition deleteFile :: "jsstring \<Rightarrow> unit io" where
  "deleteFile rawPath =
     try_catch (deleteFile_try rawPath)
       (\<lambda>err. logger (Error (DeleteFileFailed rawPath) (Some err)))"

definition renameFile_try :: "jsstring \<Rightarrow> jsstring \<Rightarrow> unit io" where
  "renameFile_try rawOldPath rawNewPath =
     andThen (safePath rawOldPath) (\<lambda>oldPath.
     andThen (safePath rawNewPath) (\<lambda>newPath.
     andThen (pathExists oldPath) (\<lambda>oldExists.
       if \<not> oldExists then logger (Warn (SourceFileNotFound oldPath))
       else
         andThen (pathExists newPath) (\<lambda>newExists.
           if newExists then logger (Warn (DestinationAlreadyExists newPath))
           else
             andThen (fs_mkdir_recursive (path_dirname newPath)) (\<lambda>_.
             andThen (fs_rename oldPath newPath) (\<lambda>_.
             logger (Success (FileRenamed oldPath newPath))))))))"

definition renameFile :: "jsstring \<Rightarrow> jsstring \<Rightarrow> unit io" where
  "renameFile rawOldPath rawNewPath =
     try_catch (renameFile_try rawOldPath rawNewPath)
       (\<lambda>err. logger (Error (RenameFileFailed rawOldPath rawNewPath) (Some err)))"

definition addToFile_try :: "jsstring \<Rightarrow> jsstring \<Rightarrow> unit io" where
  "addToFile_try rawPath content =
     andThen (safePath rawPath) (\<lambda>filePath.
     andThen (fs_mkdir_recursive (path_dirname filePath)) (\<lambda>_.
     andThen (fs_open filePath FlagA) (\<lambda>handle.
     andThen (handle_write handle content) (\<lambda>_.
     andThen (handle_close handle) (\<lambda>_.
     logger (Success (ContentAppendedTo filePath)))))))"

definition addToFile :: "jsstring \<Rightarrow> jsstring \<Rightarrow> unit io" where
  "addToFile rawPath content =
     try_catch (addToFile_try rawPath content)
       (\<lambda>err. logger (Error (AddToFileFailed rawPath) (Some err)))"

definition readFile_try :: "jsstring \<Rightarrow> unit io" where
  "readFile_try rawPath =
     andThen (safePath rawPath) (\<lambda>filePath.
     andThen (pathExists filePath) (\<lambda>exists.
       if \<not> exists then logger (Warn (FileNotFound filePath))
       else
         andThen (fs_readFile filePath) (\<lambda>content.
         andThen (logger (Success (ContentsOf filePath))) (\<lambda>_.
         print_lines
           [Rule, if content = [] then EmptyFilePlaceholder else Text content, Rule]))))"

definition readFile :: "jsstring \<Rightarrow> unit io" where
  "readFile rawPath =
     try_catch (readFile_try rawPath)
       (\<lambda>err. logger (Error (ReadFileFailed rawPath) (Some err)))"

definition copyFile_try :: "jsstring \<Rightarrow> jsstring \<Rightarrow> unit io" where
  "copyFile_try rawSrc rawDest =
     andThen (safePath rawSrc) (\<lambda>src.
     andThen (safePath rawDest) (\<lambda>dest.
     andThen (pathExists src) (\<lambda>exists.
       if \<not> exists then logger (Warn (SourceFileNotFound src))
       else
         andThen (fs_mkdir_recursive (path_dirname dest)) (\<lambda>_.
         andThen (fs_copyFile src dest) (\<lambda>_.
         logger (Success (FileCopied src dest)))))))"

definition copyFile :: "jsstring \<Rightarrow> jsstring \<Rightarrow> unit io" where
  "copyFile rawSrc rawDest =
     try_catch (copyFile_try rawSrc rawDest)
       (\<lambda>err. logger (Error (CopyFileFailed rawSrc rawDest) (Some err)))"

definition listDirectory_try :: "jsstring \<Rightarrow> unit io" where
  "listDirectory_try rawPath =
     andThen (safePath (if rawPath = [] then js ''.'' else rawPath)) (\<lambda>dirPath.
     andThen (fs_readdir dirPath) (\<lambda>entries.
     andThen (logger (Success (ContentsOf dirPath))) (\<lambda>_.
     print_lines
       ([Rule]
        @ (if length entries = 0 then [EmptyDirectory]
           else map (\<lambda>(name, isDir). DirEntry isDir name) entries)
        @ [Rule]))))"

definition listDirectory :: "jsstring \<Rightarrow> unit io" where
  "listDirectory rawPath =
     try_catch (listDirectory_try rawPath)
       (\<lambda>err. logger (Error (ListDirectoryFailed rawPath) (Some err)))"

definition fileInfo_try :: "jsstring \<Rightarrow> unit io" where
  "fileInfo_try rawPath =
     andThen (safePath rawPath) (\<lambda>filePath.
     andThen (pathExists filePath) (\<lambda>exists.
       if \<not> exists then logger (Warn (PathNotFound filePath))
       else
         andThen (fs_stat filePath) (\<lambda>stats.
         andThen (logger (Success (InfoFor filePath))) (\<lambda>_.
         print_lines
           [Rule, InfoType (isDirectory stats), InfoSize (byteSize stats),
            InfoCreated, InfoModified, InfoAccessed, Rule]))))"

definition fileInfo :: "jsstring \<Rightarrow> unit io" where
  "fileInfo rawPath =
     try_catch (fileInfo_try rawPath)
       (\<lambda>err. logger (Error (FileInfoFailed rawPath) (Some err)))"

section \<open>Command parser\<close>

definition CREATE_FILE :: jsstring where "CREATE_FILE = js ''create a file''"
definition DELETE_FILE :: jsstring where "DELETE_FILE = js ''delete the file''"
definition RENAME_FILE :: jsstring where "RENAME_FILE = js ''rename the file''"
definition ADD_TO_FILE :: jsstring where "ADD_TO_FILE = js ''add to the file''"
definition READ_FILE :: jsstring where "READ_FILE = js ''read the file''"
definition COPY_FILE :: jsstring where "COPY_FILE = js ''copy the file''"
definition LIST_DIR :: jsstring where "LIST_DIR = js ''list the directory''"
definition FILE_INFO :: jsstring where "FILE_INFO = js ''file info''"

definition COMMANDS :: "jsstring list" where
  "COMMANDS =
     [CREATE_FILE, DELETE_FILE, RENAME_FILE, ADD_TO_FILE, READ_FILE, COPY_FILE, LIST_DIR,
      FILE_INFO]"

definition to_separator :: jsstring where
  "to_separator = js '' to ''"

definition marker :: jsstring where
  "marker = js '' this content: ''"

text \<open>The first statement of \<open>parseAndExecute\<close>: the command as it is matched.\<close>

definition normalize_command :: "jsstring \<Rightarrow> jsstring" where
  "normalize_command raw = crlf_to_lf (trim (strip_bom raw))"

text \<open>\<open>parseAndExecute\<close> (app.js, lines 229 to 299).\<close>

definition parseAndExecute :: "jsstring \<Rightarrow> unit io" where
  "parseAndExecute raw =
     (let command = normalize_command raw in
      if command = [] then logger (Warn ReceivedEmptyCommand)
      else
        andThen (logger (Info (CommandReceived command))) (\<lambda>_.
          if startsWith command CREATE_FILE then
            createFile (trim (substring_from command (length CREATE_FILE)))
          else if startsWith command DELETE_FILE then
            deleteFile (trim (substring_from command (length DELETE_FILE)))
          else if startsWith command RENAME_FILE then
            (let rest = trim (substring_from command (length RENAME_FILE)) in
             case indexOf rest to_separator of
               None \<Rightarrow> logger (Error RenameSyntax None)
             | Some toIdx \<Rightarrow>
                 renameFile (trim (substring_to rest toIdx))
                   (trim (substring_from rest (toIdx + 4))))
          else if startsWith command ADD_TO_FILE then
            (let rest = trim (substring_from command (length ADD_TO_FILE)) in
             case indexOf rest marker of
               None \<Rightarrow> logger (Error AddToFileSyntax None)
             | Some markerIdx \<Rightarrow>
                 addToFile (trim (substring_to rest markerIdx))
                   (substring_from rest (markerIdx + length marker)))
          else if startsWith command READ_FILE then
            readFile (trim (substring_from command (length READ_FILE)))
          else if startsWith command COPY_FILE then
            (let rest = trim (substring_from command (length COPY_FILE)) in
             case indexOf rest to_separator of
               None \<Rightarrow> logger (Error CopyFileSyntax None)
             | Some toIdx \<Rightarrow>
                 copyFile (trim (substring_to rest toIdx))
                   (trim (substring_from rest (toIdx + 4))))
          else if startsWith command LIST_DIR then
            (let t = trim (substring_from command (length LIST_DIR));
                 dirPath = (if t = [] then js ''.'' else t)
             in listDirectory dirPath)
          else if startsWith command FILE_INFO then
            fileInfo (trim (substring_from command (length FILE_INFO)))
          else
            andThen (logger (Warn (UnknownCommand command))) (\<lambda>_.
            andThen (logger (Info AvailableCommands)) (\<lambda>_.
            print_lines (map Bullet COMMANDS)))))"

section \<open>Main watcher\<close>

text \<open>
  The handler of the \<^verbatim>\<open>change\<close> event (app.js, lines 319 to 340). \<^verbatim>\<open>file.stat()\<close> and
  \<^verbatim>\<open>file.read\<close> act on the handle of the command file (they see \<open>cmdfile\<close>, its bytes at
  the time of the call) and can fail like any other call.
  The buffer is \<open>fsize\<close> zero bytes (\<^verbatim>\<open>Buffer.alloc\<close>), and the read fills it from position
  0 with what the file holds. \<^verbatim>\<open>buffer.toString("utf-8")\<close> is library code of Node: the
  decoder is the parameter \<open>decode\<close>.
\<close>

type_synonym decoder = "8 word list \<Rightarrow> jsstring"

definition file_call :: "(world \<Rightarrow> 'a) \<Rightarrow> 'a io" where
  "file_call f w =
     (let w' = w\<lparr>clock := Suc (clock w)\<rparr>
      in case fault w (clock w) of
           Some e \<Rightarrow> (Inl (FsError e), w')
         | None \<Rightarrow> (Inr (f w), w'))"

definition file_stat_size :: "nat io" where
  "file_stat_size = file_call (\<lambda>w. length (cmdfile w))"

definition file_read :: "nat \<Rightarrow> 8 word list io" where
  "file_read fsize =
     file_call (\<lambda>w. take fsize (cmdfile w) @ replicate (fsize - length (cmdfile w)) 0)"

definition set_processing :: "bool \<Rightarrow> unit io" where
  "set_processing b w = (Inr (), w\<lparr>processing := b\<rparr>)"

definition set_lastContent :: "jsstring \<Rightarrow> unit io" where
  "set_lastContent c w = (Inr (), w\<lparr>lastContent := c\<rparr>)"

definition get_lastContent :: "jsstring io" where
  "get_lastContent w = (Inr (lastContent w), w)"

definition handler_try :: "decoder \<Rightarrow> unit io" where
  "handler_try decode =
     andThen file_stat_size (\<lambda>fsize.
       if fsize = 0 then set_processing False
       else
         andThen (file_read fsize) (\<lambda>buffer.
           (let content = decode buffer in
            andThen get_lastContent (\<lambda>lastContent.
              if content = lastContent then set_processing False
              else
                andThen (set_lastContent content) (\<lambda>_.
                parseAndExecute content)))))"

definition handler_catch :: "js_error \<Rightarrow> unit io" where
  "handler_catch err = logger (Error UnexpectedError (Some err))"

definition handler :: "decoder \<Rightarrow> unit io" where
  "handler decode w =
     (if processing w then (Inr (), w)
      else
        andThen (set_processing True) (\<lambda>_.
          try_finally (try_catch (handler_try decode) handler_catch)
            (\<lambda>w. w\<lparr>processing := False\<rparr>)) w)"

subsection \<open>The handler on the event loop\<close>

text \<open>
  The handler is an \<^verbatim>\<open>async\<close> function: it runs up to an \<^verbatim>\<open>await\<close>, is suspended there, and
  other events of the loop run before it resumes. An activation of the handler is suspended
  at \<^verbatim>\<open>await file.stat()\<close>, at \<^verbatim>\<open>await file.read(...)\<close> (with the size it has read) or at
  \<^verbatim>\<open>await parseAndExecute(content)\<close> (with the content). \<open>handler_from\<close> is the \<^verbatim>\<open>try\<close> block
  from one of these points to the next one (\<open>Some\<close>) or to its end (\<open>None\<close>).
\<close>

datatype activation = AwaitStat | AwaitRead nat | AwaitExec jsstring

definition handler_from :: "decoder \<Rightarrow> activation \<Rightarrow> activation option io" where
  "handler_from decode a =
     (case a of
        AwaitStat \<Rightarrow>
          andThen file_stat_size (\<lambda>fsize.
            if fsize = 0 then andThen (set_processing False) (\<lambda>_. ret None)
            else ret (Some (AwaitRead fsize)))
      | AwaitRead fsize \<Rightarrow>
          andThen (file_read fsize) (\<lambda>buffer.
            (let content = decode buffer in
             andThen get_lastContent (\<lambda>lastContent.
               if content = lastContent then andThen (set_processing False) (\<lambda>_. ret None)
               else andThen (set_lastContent content) (\<lambda>_. ret (Some (AwaitExec content))))))
      | AwaitExec content \<Rightarrow> andThen (parseAndExecute content) (\<lambda>_. ret None))"

text \<open>
  Resuming an activation: the \<^verbatim>\<open>catch\<close> clause takes an error of the block, and the
  \<^verbatim>\<open>finally\<close> clause runs when the block has ended, by a return or an error.
\<close>

definition resume :: "decoder \<Rightarrow> activation \<Rightarrow> activation option io" where
  "resume decode a w =
     (case try_catch (handler_from decode a)
             (\<lambda>err. andThen (handler_catch err) (\<lambda>_. ret None)) w of
        (Inr (Some a'), w') \<Rightarrow> (Inr (Some a'), w')
      | (r, w') \<Rightarrow> (r, w'\<lparr>processing := False\<rparr>))"

text \<open>
  The event loop: its state is the world and the suspended activations of the handler.
  An event is one yielded by \<^verbatim>\<open>fs.watch\<close> (the loop of lines 344 to 348 emits \<^verbatim>\<open>change\<close> for
  the events of that type, which runs the handler up to its first \<^verbatim>\<open>await\<close>), the
  completion of what a suspended activation waits for, or a write to the command file from
  outside (an editor saving a new text into the file). An error that leaves the handler is
  an unhandled rejection and ends the run.
\<close>

definition write_command_file :: "jsstring \<Rightarrow> world \<Rightarrow> world" where
  "write_command_file c w =
     (case cmdhandle w of
        Linked p \<Rightarrow> w\<lparr>nodes := AList.update p (File c) (nodes w)\<rparr>
      | Orphaned _ \<Rightarrow> w\<lparr>cmdhandle := Orphaned c\<rparr>)"

datatype eventType = ChangeEvent | RenameEvent

datatype event = Watch eventType | Settle nat | WriteCommandFile jsstring

record loop =
  state :: world
  suspended :: "activation list"

definition handler_enter :: "loop \<Rightarrow> loop" where
  "handler_enter s =
     (if processing (state s) then s
      else s\<lparr>state := (state s)\<lparr>processing := True\<rparr>, suspended := suspended s @ [AwaitStat]\<rparr>)"

fun step :: "decoder \<Rightarrow> event \<Rightarrow> loop \<Rightarrow> js_error + loop" where
  "step decode (Watch ChangeEvent) s = Inr (handler_enter s)"
| "step decode (Watch RenameEvent) s = Inr s"
| "step decode (WriteCommandFile c) s = Inr (s\<lparr>state := write_command_file c (state s)\<rparr>)"
| "step decode (Settle i) s =
     (if i < length (suspended s) then
        (case resume decode (suspended s ! i) (state s) of
           (Inl e, w) \<Rightarrow> Inl e
         | (Inr None, w) \<Rightarrow>
             Inr \<lparr>state = w, suspended = take i (suspended s) @ drop (Suc i) (suspended s)\<rparr>
         | (Inr (Some a), w) \<Rightarrow> Inr \<lparr>state = w, suspended = (suspended s)[i := a]\<rparr>)
      else Inr s)"

fun run :: "decoder \<Rightarrow> event list \<Rightarrow> loop \<Rightarrow> js_error + loop" where
  "run decode [] s = Inr s"
| "run decode (e # es) s =
     (case step decode e s of Inl err \<Rightarrow> Inl err | Inr s' \<Rightarrow> run decode es s')"

section \<open>Notions the properties are stated with\<close>






text \<open>
  The first call the fault plan lets fail, counted from now: the calls before the \<open>k\<close>-th
  pass the plan, the \<open>k\<close>-th fails with \<open>e\<close>.
\<close>

definition first_fault :: "world \<Rightarrow> nat \<Rightarrow> errno \<Rightarrow> bool" where
  "first_fault w k e \<longleftrightarrow>
     (\<forall>j<k. fault w (clock w + j) = None) \<and> fault w (clock w + k) = Some e"

text \<open>
  A computation is strict from its \<open>n\<close>-th call on: when the first call the plan lets fail
  is one it makes, and not one of its first \<open>n\<close>, it throws the error of that call there.
  A computation is quiet with \<open>n\<close> calls: it leaves the plan alone and makes \<open>n\<close> calls, or
  fewer when it throws. A computation is steady: it leaves the plan alone and the clock
  does not go back.
\<close>

definition strict_from :: "nat \<Rightarrow> 'a io \<Rightarrow> bool" where
  "strict_from n m \<longleftrightarrow>
     (\<forall>w k e. n \<le> k \<and> first_fault w k e \<and> clock w + k < clock (snd (m w)) \<longrightarrow>
        fst (m w) = Inl (FsError e) \<and> clock (snd (m w)) = Suc (clock w + k))"


definition steady :: "'a io \<Rightarrow> bool" where
  "steady m \<longleftrightarrow> (\<forall>w. fault (snd (m w)) = fault w \<and> clock w \<le> clock (snd (m w)))"

text \<open>
  The flag and the activations agree: at most one activation of the handler is suspended,
  and \<open>processing\<close> is set exactly when there is one.
\<close>

definition single_flight :: "loop \<Rightarrow> bool" where
  "single_flight s \<longleftrightarrow>
     length (suspended s) \<le> 1 \<and> (processing (state s) \<longleftrightarrow> suspended s \<noteq> [])"

text \<open>
  The part of the world that belongs to the watcher and its environment: no command
  function assigns to it. \<open>keeps m\<close> says that the computation \<open>m\<close> leaves it as it is.
\<close>

definition same_watch_state :: "world \<Rightarrow> world \<Rightarrow> bool" where
  "same_watch_state w w' \<longleftrightarrow>
     cwd w' = cwd w \<and> fault w' = fault w
     \<and> processing w' = processing w \<and> lastContent w' = lastContent w"

definition keeps :: "'a io \<Rightarrow> bool" where
  "keeps m \<longleftrightarrow> (\<forall>w. same_watch_state w (snd (m w)))"

text \<open>
  Normalisation in the order the specification lists its steps (strip the byte-order mark,
  normalise CR LF, trim); the source trims before it replaces CR LF (\<open>normalize_command\<close>).
\<close>

definition normalize_spec :: "jsstring \<Rightarrow> jsstring" where
  "normalize_spec raw = trim (crlf_to_lf (strip_bom raw))"

text \<open>
  The segments of a resolved path are not empty and hold no slash; \<open>join_segments\<close> is
  \<open>join_absolute\<close> on a list of segments that is not empty.
\<close>

definition segments_ok :: "jsstring list \<Rightarrow> bool" where
  "segments_ok segs \<longleftrightarrow> (\<forall>s \<in> set segs. s \<noteq> [] \<and> slash \<notin> set s)"

definition join_segments :: "jsstring list \<Rightarrow> jsstring" where
  "join_segments segs = concat (map (\<lambda>s. slash # s) segs)"

text \<open>
  The payload as the specification words it: the text after the first occurrence of the
  separator \<^verbatim>\<open> this content: \<close> in the command as it was written.
\<close>

definition payload_after_marker :: "jsstring \<Rightarrow> jsstring option" where
  "payload_after_marker command =
     map_option (\<lambda>i. drop (i + length marker) command) (indexOf command marker)"

subsection \<open>Concrete worlds\<close>

text \<open>
  A working directory \<^verbatim>\<open>/work\<close> with two files and the empty command file, on a file
  system without faults; the same directory when every call is denied, and when only the
  call at one point of time is. \<open>ascii_decode\<close> is a decoder that agrees with UTF-8 on ASCII
  bytes.
\<close>

definition bytes :: "string \<Rightarrow> 8 word list" where
  "bytes s = map of_char s"

definition ascii_decode :: decoder where
  "ascii_decode bs = map ucast bs"

definition example_world :: world where
  "example_world =
     \<lparr>cwd = js ''/work'',
      nodes = [(js ''/work'', Dir), (js ''/work/a.txt'', File (js ''hello'')),
               (js ''/work/b.txt'', File (js ''world'')),
               (js ''/work/command.txt'', File [])],
      fault = (\<lambda>_. None), clock = 0, log = [],
      cmdhandle = Linked (js ''/work/command.txt''), processing = False,
      lastContent = []\<rparr>"

definition denied_world :: world where
  "denied_world = example_world\<lparr>fault := (\<lambda>_. Some EACCES)\<rparr>"

definition fault_only :: "nat \<Rightarrow> errno \<Rightarrow> nat \<Rightarrow> errno option" where
  "fault_only n e k = (if k = n then Some e else None)"

definition first_call_denied_world :: world where
  "first_call_denied_world = example_world\<lparr>fault := fault_only 0 EACCES\<rparr>"

definition second_call_denied_world :: world where
  "second_call_denied_world = example_world\<lparr>fault := fault_only 1 EACCES\<rparr>"

text \<open>
  The same directory with the command \<^verbatim>\<open>read the file a.txt\<close> in the command file, and
  the world after the handler has executed it; that directory when the second call from
  now is denied; and the directory with a command in the command file that appends to the
  command file itself.
\<close>

definition command_world :: world where
  "command_world = write_command_file (js ''read the file a.txt'') example_world"

definition self_append_world :: world where
  "self_append_world =
     write_command_file (js ''add to the file command.txt this content: x'') example_world"


definition after_read_world :: world where
  "after_read_world =
     command_world\<lparr>clock := 4,
       log := [Info (CommandReceived (js ''read the file a.txt'')),
               Success (ContentsOf (js ''/work/a.txt'')),
               Print Rule, Print (Text (js ''hello'')), Print Rule],
       lastContent := js ''read the file a.txt''\<rparr>"

section \<open>Evaluation\<close>

lemmas js_eval =
  js_def trim_def isWhiteSpace_def startsWith_def substring_from_def substring_to_def
  strip_bom_def

lemmas path_eval =
  normalize_step_def normalize_segments_def join_absolute_def isAbsolute_def
  path_resolve_def path_dirname_def

lemma example_resolve_a:
  "resolveSafePath (cwd example_world) (js ''a.txt'') = Inr (js ''/work/a.txt'')"
  by (simp add: example_world_def resolveSafePath_def js_eval path_eval)

lemma example_resolve_b:
  "resolveSafePath (cwd example_world) (js ''b.txt'') = Inr (js ''/work/b.txt'')"
  by (simp add: example_world_def resolveSafePath_def js_eval path_eval)

lemmas io_eval =
  ret_def andThen_def try_catch_def try_finally_def logger_def syscall_def safePath_def
  pathExists_def lookup_def Let_def

lemmas handler_eval =
  handler_def handler_try_def handler_catch_def set_processing_def file_stat_size_def
  file_read_def file_call_def get_lastContent_def set_lastContent_def

lemmas command_consts =
  CREATE_FILE_def DELETE_FILE_def RENAME_FILE_def ADD_TO_FILE_def READ_FILE_def
  COPY_FILE_def LIST_DIR_def FILE_INFO_def to_separator_def marker_def

lemma cmdfile_updates [simp]:
  "cmdfile (w\<lparr>clock := k\<rparr>) = cmdfile w"
  "cmdfile (w\<lparr>log := l\<rparr>) = cmdfile w"
  "cmdfile (w\<lparr>processing := b\<rparr>) = cmdfile w"
  "cmdfile (w\<lparr>lastContent := c\<rparr>) = cmdfile w"
  "cmdfile (w\<lparr>fault := f\<rparr>) = cmdfile w"
  by (simp_all add: cmdfile_def handle_text_def split: handle.splits)

lemmas cmdfile_eval =
  cmdfile_def handle_text_def text_at_def write_command_file_def encode_unit_def

lemma cmdfile_command_world: "cmdfile command_world = bytes ''read the file a.txt''"
  by (simp add: command_world_def example_world_def cmdfile_eval lookup_def update_conv'
      bytes_def js_def)

lemma decode_command:
  "ascii_decode (cmdfile command_world) = js ''read the file a.txt''"
  by (simp add: cmdfile_command_world ascii_decode_def bytes_def js_def)

lemma command_world_eq:
  "command_world =
     example_world\<lparr>nodes :=
       [(js ''/work'', Dir), (js ''/work/a.txt'', File (js ''hello'')),
        (js ''/work/b.txt'', File (js ''world'')),
        (js ''/work/command.txt'', File (js ''read the file a.txt''))]\<rparr>"
  by (simp add: command_world_def write_command_file_def example_world_def js_def)

lemma parse_read_example:
  "parseAndExecute (ascii_decode (cmdfile command_world))
     (command_world\<lparr>processing := True, clock := clock command_world + 2,
        lastContent := ascii_decode (cmdfile command_world)\<rparr>) =
   (Inr (), after_read_world\<lparr>processing := True\<rparr>)"
  unfolding decode_command
  by (simp add: parseAndExecute_def normalize_command_def command_consts js_eval
      readFile_def readFile_try_def io_eval fs_access_def fs_readFile_def resolveSafePath_def
      path_eval command_world_eq example_world_def after_read_world_def)

lemmas fs_eval =
  fs_access_def fs_mkdir_recursive_def fs_open_def handle_write_def handle_close_def
  dir_chain_def

lemma example_resolve_sub:
  "resolveSafePath (cwd example_world) (js ''sub/c.txt'') = Inr (js ''/work/sub/c.txt'')"
  by (simp add: example_world_def resolveSafePath_def js_eval path_eval)

lemma example_resolve_c:
  "resolveSafePath (cwd example_world) (js ''c.txt'') = Inr (js ''/work/c.txt'')"
  by (simp add: example_world_def resolveSafePath_def js_eval path_eval)

lemma example_chain_sub:
  "dir_chain (path_dirname (js ''/work/sub/c.txt'')) = [js ''/work'', js ''/work/sub'']"
  by (simp add: dir_chain_def js_eval path_eval upt_rec)

lemma example_chain_c:
  "dir_chain (path_dirname (js ''/work/c.txt'')) = [js ''/work'']"
  by (simp add: dir_chain_def js_eval path_eval upt_rec)

section \<open>Path resolution\<close>

text \<open>
  C1. The claim asks that every path whose absolute form is neither the sandbox root nor a
  segment-wise descendant of it is rejected with PathTraversal. The source tests
  \<^verbatim>\<open>resolved.startsWith(cwd)\<close>, a prefix test on characters: with the working directory
  \<^verbatim>\<open>/work\<close>, the input \<^verbatim>\<open>/work-other/x\<close> resolves to itself, is not within the root, and is
  accepted; so is the relative input \<^verbatim>\<open>../work-other/x\<close>.
\<close>

theorem resolveSafePath_accepts_sibling:
  "resolveSafePath (js ''/work'') (js ''/work-other/x'') = Inr (js ''/work-other/x'')
   \<and> resolveSafePath (js ''/work'') (js ''../work-other/x'') = Inr (js ''/work-other/x'')
   \<and> path_resolve (js ''/work'') (js ''/work-other/x'') = js ''/work-other/x''
   \<and> path_resolve (js ''/work'') (js ''.'') = js ''/work''
   \<and> \<not> within_root (js ''/work'') (js ''/work-other/x'')"
  by (simp add: resolveSafePath_def within_root_def js_eval path_eval)

section \<open>Errors never leave a command\<close>

lemma print_lines_ok: "\<exists>w'. print_lines ls w = (Inr (), w')"
  by (induction ls arbitrary: w) (auto simp: ret_def andThen_def logger_def)

lemma try_catch_logger:
  "try_catch m (\<lambda>err. logger (f err)) w =
     (case m w of
        (Inl e, w') \<Rightarrow> (Inr (), w'\<lparr>log := log w' @ [f e]\<rparr>)
      | (Inr x, w') \<Rightarrow> (Inr x, w'))"
  by (simp add: try_catch_def logger_def split: prod.splits sum.splits)

lemma try_catch_logger_fst: "fst (try_catch m (\<lambda>err. logger (f err)) w) = Inr ()"
  by (simp add: try_catch_logger split: prod.splits sum.splits)

lemmas command_defs =
  createFile_def deleteFile_def renameFile_def addToFile_def readFile_def copyFile_def
  listDirectory_def fileInfo_def



lemma andThen_logger: "andThen (logger e) f w = f () (w\<lparr>log := log w @ [e]\<rparr>)"
  by (simp add: andThen_def logger_def)

lemma parseAndExecute_fst: "fst (parseAndExecute raw w) = Inr ()"
proof -
  have cmds:
    "\<And>p w. fst (createFile p w) = Inr ()" "\<And>p w. fst (deleteFile p w) = Inr ()"
    "\<And>p q w. fst (renameFile p q w) = Inr ()" "\<And>p q w. fst (addToFile p q w) = Inr ()"
    "\<And>p w. fst (readFile p w) = Inr ()" "\<And>p q w. fst (copyFile p q w) = Inr ()"
    "\<And>p w. fst (listDirectory p w) = Inr ()" "\<And>p w. fst (fileInfo p w) = Inr ()"
    by (simp_all add: command_defs try_catch_logger_fst)
  have pl: "\<And>ls w. fst (print_lines ls w) = Inr ()"
    using print_lines_ok by (metis fst_conv)
  have lg: "\<And>e w. fst (logger e w) = Inr ()"
    by (simp add: logger_def)
  show ?thesis
    unfolding parseAndExecute_def Let_def
    by (simp add: andThen_logger cmds pl lg split: option.splits)
qed

lemma parseAndExecute_no_throw: "parseAndExecute c v \<noteq> (Inl e, w')"
  using parseAndExecute_fst [of c v] by auto



text \<open>
  Resuming an activation either suspends it again, with the flag as it was, or ends it,
  with the flag reset; it never throws.
\<close>

lemma resume_cases:
  "(\<exists>a' w'. resume decode a w = (Inr (Some a'), w') \<and> processing w' = processing w)
   \<or> (\<exists>w'. resume decode a w = (Inr None, w') \<and> \<not> processing w')"
proof (cases "handler_from decode a w")
  case (Pair r w')
  show ?thesis
  proof (cases r)
    case (Inl e)
    with Pair show ?thesis
      by (simp add: resume_def try_catch_def andThen_def handler_catch_def logger_def ret_def)
  next
    case (Inr x)
    show ?thesis
    proof (cases x)
      case None
      with Inr Pair show ?thesis by (simp add: resume_def try_catch_def)
    next
      case (Some a')
      have "processing w' = processing w"
        using Pair Inr Some
        by (cases a)
           (auto simp: handler_from_def andThen_def file_stat_size_def file_read_def
              file_call_def Let_def ret_def set_processing_def get_lastContent_def
              set_lastContent_def split: if_splits option.splits prod.splits sum.splits)
      with Some Inr Pair show ?thesis by (simp add: resume_def try_catch_def)
    qed
  qed
qed

lemma step_single_flight:
  assumes "single_flight s"
  shows "\<exists>s'. step decode ev s = Inr s' \<and> single_flight s'"
proof (cases ev)
  case (Watch t)
  with assms show ?thesis
    by (cases t) (auto simp: single_flight_def handler_enter_def)
next
  case (WriteCommandFile c)
  with assms show ?thesis
    by (simp add: single_flight_def write_command_file_def split: handle.splits)
next
  case (Settle i)
  show ?thesis
  proof (cases "i < length (suspended s)")
    case False
    with Settle assms show ?thesis by simp
  next
    case True
    with assms obtain a where a: "suspended s = [a]" "i = 0" "processing (state s)"
      by (cases "suspended s") (auto simp: single_flight_def)
    from resume_cases [of decode a "state s"] show ?thesis
      using Settle a by (auto simp: single_flight_def)
  qed
qed

lemma run_single_flight:
  "single_flight s \<Longrightarrow> \<exists>s'. run decode evs s = Inr s' \<and> single_flight s'"
proof (induction evs arbitrary: s)
  case Nil
  then show ?case by simp
next
  case (Cons ev evs)
  from step_single_flight [OF Cons.prems, of decode ev]
  obtain s1 where "step decode ev s = Inr s1" "single_flight s1" by blast
  with Cons.IH [of s1] show ?case by simp
qed



subsection \<open>Where a failing call is reported\<close>

text \<open>
  A command function makes its calls of the file system one after the other. The existence
  checks at its start swallow their error (\<open>pathExists\<close>); every call after them is strict:
  when it is the first one to fail, its error leaves the \<^verbatim>\<open>try\<close> block there.
\<close>

lemma strict_from_mono: "strict_from n m \<Longrightarrow> n \<le> n' \<Longrightarrow> strict_from n' m"
  unfolding strict_from_def by (meson le_trans)

lemma strict_silent:
  assumes "\<And>w. clock (snd (m w)) = clock w"
  shows "strict_from n m"
  unfolding strict_from_def using assms by simp



lemma strict_safePath: "strict_from n (safePath p)"
  by (rule strict_silent) (simp add: safePath_def)

lemma steady_silent:
  assumes "\<And>w. clock (snd (m w)) = clock w" "\<And>w. fault (snd (m w)) = fault w"
  shows "steady m"
  unfolding steady_def using assms by simp


lemma steady_ret: "steady (ret x)"
  by (rule steady_silent) (simp_all add: ret_def)


























text \<open>
  C3, as the claim states it, does not hold of an existence check: \<^verbatim>\<open>fs.access\<close> fails with
  \<^verbatim>\<open>EACCES\<close> on a file that is there, \<open>pathExists\<close> swallows the error, and \<open>deleteFile\<close> logs
  the warning of a missing file; the error is not reported.
\<close>

theorem access_failure_not_reported:
  "lookup (nodes first_call_denied_world) (js ''/work/a.txt'') = Some (File (js ''hello''))
   \<and> fs_access (js ''/work/a.txt'') first_call_denied_world =
        (Inl (FsError EACCES), first_call_denied_world\<lparr>clock := 1\<rparr>)
   \<and> deleteFile (js ''a.txt'') first_call_denied_world =
        (Inr (), first_call_denied_world\<lparr>clock := 1,
           log := [Warn (FileNotFoundCannotDelete (js ''/work/a.txt''))]\<rparr>)"
proof -
  have r: "resolveSafePath (js ''/work'') (js ''a.txt'') = Inr (js ''/work/a.txt'')"
    by (simp add: resolveSafePath_def js_eval path_eval)
  have l: "lookup (nodes first_call_denied_world) (js ''/work/a.txt'')
      = Some (File (js ''hello''))"
    by (simp add: first_call_denied_world_def example_world_def lookup_def js_def)
  have a: "fs_access (js ''/work/a.txt'') first_call_denied_world =
        (Inl (FsError EACCES), first_call_denied_world\<lparr>clock := 1\<rparr>)"
    by (simp add: fs_access_def syscall_def first_call_denied_world_def example_world_def
        fault_only_def)
  have d: "deleteFile (js ''a.txt'') first_call_denied_world =
        (Inr (), first_call_denied_world\<lparr>clock := 1,
           log := [Warn (FileNotFoundCannotDelete (js ''/work/a.txt''))]\<rparr>)"
    by (simp add: deleteFile_def deleteFile_try_def io_eval r fs_access_def
        first_call_denied_world_def example_world_def fault_only_def)
  from l a d show ?thesis by simp
qed



section \<open>What the commands leave alone\<close>

text \<open>
  No file-system call, no log line and so no command function assigns to the working
  directory, the fault plan, the command file, \<open>processing\<close> or \<open>lastContent\<close>.
\<close>

lemma keeps_ret: "keeps (ret x)"
  by (simp add: keeps_def ret_def same_watch_state_def)

lemma keeps_logger: "keeps (logger e)"
  by (simp add: keeps_def logger_def same_watch_state_def)

lemma keeps_syscall: "keeps (syscall f)"
  by (simp add: keeps_def syscall_def same_watch_state_def Let_def split: option.splits sum.splits)

lemma keeps_syscall_moving: "keeps (syscall_moving g f)"
  by (simp add: keeps_def syscall_moving_def syscall_def same_watch_state_def Let_def
      split: option.splits sum.splits prod.splits)

lemma keeps_safePath: "keeps (safePath p)"
  by (simp add: keeps_def safePath_def same_watch_state_def)

lemma same_watch_state_trans:
  "same_watch_state w w1 \<Longrightarrow> same_watch_state w1 w2 \<Longrightarrow> same_watch_state w w2"
  by (simp add: same_watch_state_def)

lemma keepsD: "keeps m \<Longrightarrow> m w = (r, w') \<Longrightarrow> same_watch_state w w'"
  unfolding keeps_def by (metis snd_conv)

lemma keepsI: "(\<And>w r w'. m w = (r, w') \<Longrightarrow> same_watch_state w w') \<Longrightarrow> keeps m"
  unfolding keeps_def by (metis prod.collapse)

lemma keeps_andThen:
  assumes "keeps m" and "\<And>x. keeps (f x)"
  shows "keeps (andThen m f)"
proof (rule keepsI)
  fix w r w'
  assume run: "andThen m f w = (r, w')"
  obtain r1 w1 where m: "m w = (r1, w1)" by (cases "m w")
  from keepsD [OF assms(1) m] have 1: "same_watch_state w w1" .
  show "same_watch_state w w'"
  proof (cases r1)
    case (Inl e)
    with run m 1 show ?thesis by (simp add: andThen_def)
  next
    case (Inr x)
    with run m have "f x w1 = (r, w')" by (simp add: andThen_def)
    from keepsD [OF assms(2) this] 1 show ?thesis
      by (rule same_watch_state_trans [rotated])
  qed
qed

lemma keeps_try_catch:
  assumes "keeps m" and "\<And>e. keeps (h e)"
  shows "keeps (try_catch m h)"
proof (rule keepsI)
  fix w r w'
  assume run: "try_catch m h w = (r, w')"
  obtain r1 w1 where m: "m w = (r1, w1)" by (cases "m w")
  from keepsD [OF assms(1) m] have 1: "same_watch_state w w1" .
  show "same_watch_state w w'"
  proof (cases r1)
    case (Inr x)
    with run m 1 show ?thesis by (simp add: try_catch_def)
  next
    case (Inl e)
    with run m have "h e w1 = (r, w')" by (simp add: try_catch_def)
    from keepsD [OF assms(2) this] 1 show ?thesis
      by (rule same_watch_state_trans [rotated])
  qed
qed

lemma keeps_if: "keeps a \<Longrightarrow> keeps b \<Longrightarrow> keeps (if c then a else b)"
  by simp

lemma keeps_print_lines: "keeps (print_lines ls)"
  by (induction ls) (auto intro!: keeps_ret keeps_andThen keeps_logger)

lemma keeps_prims:
  "keeps (fs_access p)" "keeps (fs_mkdir_recursive p)" "keeps (fs_open p flag)"
  "keeps (handle_write h c)" "keeps (handle_close h)" "keeps (fs_unlink p)"
  "keeps (fs_rename p q)" "keeps (fs_readFile p)" "keeps (fs_copyFile p q)"
  "keeps (fs_readdir p)" "keeps (fs_stat p)"
  by (simp_all add: fs_access_def fs_mkdir_recursive_def fs_open_def handle_write_def
        handle_close_def fs_unlink_def fs_rename_def fs_readFile_def fs_copyFile_def
        fs_readdir_def fs_stat_def keeps_syscall keeps_syscall_moving)

lemma keeps_pathExists: "keeps (pathExists p)"
  unfolding pathExists_def
  by (intro keeps_try_catch keeps_andThen keeps_prims keeps_ret)

lemmas keeps_intros =
  keeps_try_catch keeps_andThen keeps_if keeps_prims keeps_ret keeps_logger keeps_safePath
  keeps_pathExists keeps_print_lines

lemma keeps_commands:
  "keeps (createFile p)" "keeps (deleteFile p)" "keeps (renameFile p q)"
  "keeps (addToFile p c)" "keeps (readFile p)" "keeps (copyFile p q)"
  "keeps (listDirectory p)" "keeps (fileInfo p)"
  unfolding createFile_def createFile_try_def deleteFile_def deleteFile_try_def
    renameFile_def renameFile_try_def addToFile_def addToFile_try_def readFile_def
    readFile_try_def copyFile_def copyFile_try_def listDirectory_def listDirectory_try_def
    fileInfo_def fileInfo_try_def
  by (intro keeps_intros)+

lemma keeps_parseAndExecute: "keeps (parseAndExecute raw)"
  unfolding parseAndExecute_def Let_def
  by (intro keeps_intros keeps_commands | simp split: option.split add: keeps_intros keeps_commands)+

section \<open>The change handler\<close>

lemma command_world_fields:
  "processing command_world = False" "clock command_world = 0" "log command_world = []"
  "fault command_world = (\<lambda>_. None)" "lastContent command_world = []"
  "cwd command_world = js ''/work''"
  by (simp_all add: command_world_eq example_world_def)

lemma handler_duplicate:
  assumes "\<not> processing w" "cmdfile w \<noteq> []" "fault w (clock w) = None"
    "fault w (Suc (clock w)) = None" "decode (cmdfile w) = lastContent w"
  shows "handler decode w = (Inr (), w\<lparr>clock := clock w + 2\<rparr>)"
  using assms
  by (simp add: handler_def handler_try_def andThen_def set_processing_def try_finally_def
      try_catch_def file_stat_size_def file_read_def file_call_def Let_def get_lastContent_def)

lemma handler_fresh:
  assumes "\<not> processing w" "cmdfile w \<noteq> []" "fault w (clock w) = None"
    "fault w (Suc (clock w)) = None" "decode (cmdfile w) \<noteq> lastContent w"
  shows "handler decode w =
    (Inr (), (snd (parseAndExecute (decode (cmdfile w))
       (w\<lparr>processing := True, clock := clock w + 2, lastContent := decode (cmdfile w)\<rparr>)))
       \<lparr>processing := False\<rparr>)"
proof -
  obtain w' where "parseAndExecute (decode (cmdfile w))
       (w\<lparr>processing := True, clock := clock w + 2, lastContent := decode (cmdfile w)\<rparr>) = (Inr (), w')"
    using parseAndExecute_fst by (metis prod.collapse)
  then show ?thesis
  using assms
  by (simp add: handler_def handler_try_def andThen_def set_processing_def try_finally_def
      try_catch_def file_stat_size_def file_read_def file_call_def Let_def get_lastContent_def
      set_lastContent_def)
qed

lemma handler_after_cycle:
  assumes "\<not> processing w" "cmdfile w \<noteq> []" "fault w (clock w) = None"
    "fault w (Suc (clock w)) = None"
  shows "lastContent (snd (handler decode w)) = decode (cmdfile w)
     \<and> \<not> processing (snd (handler decode w))
     \<and> fault (snd (handler decode w)) = fault w"
proof (cases "decode (cmdfile w) = lastContent w")
  case True
  from handler_duplicate [of w decode] assms True show ?thesis by simp
next
  case False
  let ?w0 = "w\<lparr>processing := True, clock := clock w + 2, lastContent := decode (cmdfile w)\<rparr>"
  have "same_watch_state ?w0 (snd (parseAndExecute (decode (cmdfile w)) ?w0))"
    using keeps_parseAndExecute by (simp add: keeps_def)
  with handler_fresh [of w decode] assms False show ?thesis
    by (simp add: same_watch_state_def)
qed

lemmas handler_unfold =
  handler_enter_def resume_def handler_from_def handler_def handler_try_def
  andThen_def set_processing_def try_finally_def handler_catch_def logger_def ret_def
  try_catch_def file_stat_size_def file_read_def file_call_def Let_def get_lastContent_def
  set_lastContent_def

text \<open>
  A notification on an idle watcher, followed by the completions its activation waits for
  with nothing in between, is one call of \<open>handler\<close>: the event loop refines the handler as
  it is written.
\<close>

lemma run_cycle_is_handler:
  assumes "\<not> processing w"
  shows "run decode [Watch ChangeEvent, Settle 0, Settle 0, Settle 0] \<lparr>state = w, suspended = []\<rparr>
       = Inr \<lparr>state = snd (handler decode w), suspended = []\<rparr>"
proof -
  note p = parseAndExecute_no_throw
  show ?thesis
  proof (cases "fault w (clock w)")
    case (Some e)
    with assms show ?thesis by (simp add: handler_unfold)
  next
    case None
    note stat = this
    show ?thesis
    proof (cases "cmdfile w = []")
      case True
      with assms stat show ?thesis by (simp add: handler_unfold)
    next
      case False
      note nonempty = this
      show ?thesis
      proof (cases "fault w (Suc (clock w))")
        case (Some e)
        with assms stat nonempty show ?thesis by (simp add: handler_unfold)
      next
        case None
        show ?thesis
        proof (cases "decode (cmdfile w) = lastContent w")
          case True
          with assms stat nonempty None show ?thesis by (simp add: handler_unfold)
        next
          case False
          with assms stat nonempty None show ?thesis
            by (simp add: handler_unfold p split: prod.splits sum.splits)
        qed
      qed
    qed
  qed
qed

lemma handler_resets: "\<not> processing w \<Longrightarrow> \<not> processing (snd (handler decode w))"
  by (simp add: handler_def andThen_def set_processing_def try_finally_def
      split: prod.splits sum.splits)

text \<open>
  C5. From an idle watcher, along every sequence of events (notifications, completions of
  what the handler waits for, writes to the command file), at most one activation of the
  handler is suspended and \<open>processing\<close> is set exactly when there is one. The handler sets
  the flag before its first \<^verbatim>\<open>await\<close>, and when its cycle has ended, on whichever path (empty
  file, duplicate content, execution, error), the flag is reset.
\<close>

theorem single_flight_invariant:
  "\<not> processing w \<longrightarrow>
     (\<exists>s'. run decode evs \<lparr>state = w, suspended = []\<rparr> = Inr s'
        \<and> length (suspended s') \<le> 1
        \<and> (processing (state s') \<longleftrightarrow> suspended s' \<noteq> []))
     \<and> handler_enter \<lparr>state = w, suspended = []\<rparr> =
         \<lparr>state = w\<lparr>processing := True\<rparr>, suspended = [AwaitStat]\<rparr>
     \<and> (\<exists>s'. run decode [Watch ChangeEvent, Settle 0, Settle 0, Settle 0]
                \<lparr>state = w, suspended = []\<rparr> = Inr s'
          \<and> state s' = snd (handler decode w)
          \<and> \<not> processing (state s') \<and> suspended s' = [])"
proof (intro impI conjI)
  assume idle: "\<not> processing w"
  then have "single_flight \<lparr>state = w, suspended = []\<rparr>"
    by (simp add: single_flight_def)
  from run_single_flight [OF this, of decode evs]
  show "\<exists>s'. run decode evs \<lparr>state = w, suspended = []\<rparr> = Inr s'
        \<and> length (suspended s') \<le> 1
        \<and> (processing (state s') \<longleftrightarrow> suspended s' \<noteq> [])"
    by (simp add: single_flight_def)
  from idle show "handler_enter \<lparr>state = w, suspended = []\<rparr> =
         \<lparr>state = w\<lparr>processing := True\<rparr>, suspended = [AwaitStat]\<rparr>"
    by (simp add: handler_enter_def)
  from run_cycle_is_handler [OF idle, of decode] handler_resets [OF idle, of decode]
  show "\<exists>s'. run decode [Watch ChangeEvent, Settle 0, Settle 0, Settle 0]
                \<lparr>state = w, suspended = []\<rparr> = Inr s'
          \<and> state s' = snd (handler decode w)
          \<and> \<not> processing (state s') \<and> suspended s' = []"
    by simp
qed

theorem single_flight_invariant_witness:
  "\<not> processing command_world
   \<and> run ascii_decode [Watch ChangeEvent, Watch ChangeEvent, Settle 0, Watch ChangeEvent]
        \<lparr>state = command_world, suspended = []\<rparr> =
      Inr \<lparr>state = command_world\<lparr>processing := True, clock := 1\<rparr>,
           suspended = [AwaitRead 19]\<rparr>
   \<and> (\<exists>s'. run ascii_decode [Watch ChangeEvent, Settle 0, Settle 0, Settle 0]
                \<lparr>state = command_world, suspended = []\<rparr> = Inr s'
          \<and> \<not> processing (state s') \<and> suspended s' = [])"
proof -
  have idle: "\<not> processing command_world"
    by (simp add: command_world_fields)
  have r: "run ascii_decode [Watch ChangeEvent, Watch ChangeEvent, Settle 0, Watch ChangeEvent]
        \<lparr>state = command_world, suspended = []\<rparr> =
      Inr \<lparr>state = command_world\<lparr>processing := True, clock := 1\<rparr>,
           suspended = [AwaitRead 19]\<rparr>"
    by (simp add: handler_enter_def resume_def handler_from_def handler_eval io_eval
        cmdfile_command_world bytes_def command_world_fields)
  from single_flight_invariant [of command_world ascii_decode
      "[Watch ChangeEvent, Watch ChangeEvent, Settle 0, Watch ChangeEvent]"] idle
  have "\<exists>s'. run ascii_decode [Watch ChangeEvent, Settle 0, Settle 0, Settle 0]
                \<lparr>state = command_world, suspended = []\<rparr> = Inr s'
          \<and> \<not> processing (state s') \<and> suspended s' = []"
    by blast
  with idle r show ?thesis by blast
qed

text \<open>
  A command can change the command file: the command file lies in the working directory,
  and a command that names it acts on it. After the cycle of
  \<^verbatim>\<open>add to the file command.txt this content: x\<close> the command file holds one more \<^verbatim>\<open>x\<close> than
  the handler has read, so the next notification finds fresh content and executes again.
\<close>

lemma self_append_changes_command_file:
  "cmdfile self_append_world = bytes ''add to the file command.txt this content: x''
   \<and> cmdfile (snd (handler ascii_decode self_append_world)) =
       bytes ''add to the file command.txt this content: xx''
   \<and> lastContent (snd (handler ascii_decode self_append_world)) =
       js ''add to the file command.txt this content: x''"
proof -
  have W: "self_append_world = example_world
      \<lparr>nodes := [(js ''/work'', Dir), (js ''/work/a.txt'', File (js ''hello'')),
                 (js ''/work/b.txt'', File (js ''world'')),
                 (js ''/work/command.txt'',
                  File (js ''add to the file command.txt this content: x''))]\<rparr>"
    by (simp add: self_append_world_def write_command_file_def example_world_def js_def)
  have c: "cmdfile self_append_world = bytes ''add to the file command.txt this content: x''"
    by (simp add: W example_world_def cmdfile_eval lookup_def js_def bytes_def)
  have d: "ascii_decode (cmdfile self_append_world) =
      js ''add to the file command.txt this content: x''"
    by (simp add: c bytes_def ascii_decode_def js_def)
  have f: "\<not> processing self_append_world" "cmdfile self_append_world \<noteq> []"
    "fault self_append_world (clock self_append_world) = None"
    "fault self_append_world (Suc (clock self_append_world)) = None"
    "ascii_decode (cmdfile self_append_world) \<noteq> lastContent self_append_world"
    unfolding d by (simp_all add: c bytes_def) (simp_all add: W example_world_def js_def)
  have p: "parseAndExecute (js ''add to the file command.txt this content: x'')
      (self_append_world\<lparr>processing := True, clock := clock self_append_world + 2,
         lastContent := js ''add to the file command.txt this content: x''\<rparr>) =
      (Inr (), self_append_world
         \<lparr>nodes := [(js ''/work'', Dir), (js ''/work/a.txt'', File (js ''hello'')),
                    (js ''/work/b.txt'', File (js ''world'')),
                    (js ''/work/command.txt'',
                     File (js ''add to the file command.txt this content: xx''))],
          clock := 6,
          log := [Info (CommandReceived (js ''add to the file command.txt this content: x'')),
                  Success (ContentAppendedTo (js ''/work/command.txt''))],
          processing := True,
          lastContent := js ''add to the file command.txt this content: x''\<rparr>)"
    by (simp add: parseAndExecute_def normalize_command_def command_consts addToFile_def
        addToFile_try_def io_eval fs_eval resolveSafePath_def W example_world_def js_eval
        path_eval upt_rec)
  have h: "handler ascii_decode self_append_world =
      (Inr (), self_append_world
         \<lparr>nodes := [(js ''/work'', Dir), (js ''/work/a.txt'', File (js ''hello'')),
                    (js ''/work/b.txt'', File (js ''world'')),
                    (js ''/work/command.txt'',
                     File (js ''add to the file command.txt this content: xx''))],
          clock := 6,
          log := [Info (CommandReceived (js ''add to the file command.txt this content: x'')),
                  Success (ContentAppendedTo (js ''/work/command.txt''))],
          processing := False,
          lastContent := js ''add to the file command.txt this content: x''\<rparr>)"
    unfolding handler_fresh [of self_append_world ascii_decode, OF f] d p by simp
  show ?thesis
    unfolding h by (simp add: c W example_world_def cmdfile_eval lookup_def js_def bytes_def)
qed

text \<open>
  C4. When the content read from the command file equals \<open>lastContent\<close>, the handler
  returns without parsing or executing: nothing but the clock of the two reads changes.
  Fresh content is executed once. Hence a second notification that arrives after the cycle
  of the first has ended, and finds in the command file the bytes the first one read,
  executes nothing. (The reads of the two cycles are taken to succeed, and the command file
  to be non-empty, as the claim does.)
\<close>

theorem duplicate_notification_not_executed:
  assumes "\<not> processing w" and "cmdfile w \<noteq> []"
    and "fault w (clock w) = None" and "fault w (Suc (clock w)) = None"
  shows "(decode (cmdfile w) = lastContent w \<longrightarrow>
            handler decode w = (Inr (), w\<lparr>clock := clock w + 2\<rparr>))
     \<and> (decode (cmdfile w) \<noteq> lastContent w \<longrightarrow>
            handler decode w =
              (Inr (), (snd (parseAndExecute (decode (cmdfile w))
                 (w\<lparr>processing := True, clock := clock w + 2,
                    lastContent := decode (cmdfile w)\<rparr>)))\<lparr>processing := False\<rparr>))
     \<and> (\<forall>w1. w1 = snd (handler decode w) \<and> cmdfile w1 = cmdfile w
              \<and> fault w (clock w1) = None \<and> fault w (Suc (clock w1)) = None \<longrightarrow>
            handler decode w1 = (Inr (), w1\<lparr>clock := clock w1 + 2\<rparr>))"
proof (intro conjI impI allI)
  assume "decode (cmdfile w) = lastContent w"
  with assms show "handler decode w = (Inr (), w\<lparr>clock := clock w + 2\<rparr>)"
    by (rule handler_duplicate)
next
  assume "decode (cmdfile w) \<noteq> lastContent w"
  with assms show "handler decode w =
              (Inr (), (snd (parseAndExecute (decode (cmdfile w))
                 (w\<lparr>processing := True, clock := clock w + 2,
                    lastContent := decode (cmdfile w)\<rparr>)))\<lparr>processing := False\<rparr>)"
    by (rule handler_fresh)
next
  fix w1
  assume a: "w1 = snd (handler decode w) \<and> cmdfile w1 = cmdfile w
              \<and> fault w (clock w1) = None \<and> fault w (Suc (clock w1)) = None"
  with handler_after_cycle [of w decode] assms
  show "handler decode w1 = (Inr (), w1\<lparr>clock := clock w1 + 2\<rparr>)"
    by (intro handler_duplicate) auto
qed

theorem duplicate_notification_not_executed_witness:
  "\<not> processing command_world \<and> cmdfile command_world \<noteq> []
   \<and> ascii_decode (cmdfile command_world) \<noteq> lastContent command_world
   \<and> handler ascii_decode command_world = (Inr (), after_read_world)
   \<and> cmdfile after_read_world = cmdfile command_world
   \<and> ascii_decode (cmdfile after_read_world) = lastContent after_read_world
   \<and> handler ascii_decode after_read_world = (Inr (), after_read_world\<lparr>clock := 6\<rparr>)"
proof -
  have h: "\<not> processing command_world" "cmdfile command_world \<noteq> []"
    "fault command_world (clock command_world) = None"
    "fault command_world (Suc (clock command_world)) = None"
    by (simp_all add: command_world_fields cmdfile_command_world bytes_def)
  have d: "ascii_decode (cmdfile command_world) \<noteq> lastContent command_world"
    by (simp add: decode_command command_world_fields js_def)
  have s: "cmdfile after_read_world = cmdfile command_world"
    by (simp add: after_read_world_def)
  have a: "ascii_decode (cmdfile after_read_world) = lastContent after_read_world"
    by (simp add: s decode_command) (simp add: after_read_world_def)
  have b: "(after_read_world\<lparr>processing := True\<rparr>)\<lparr>processing := False\<rparr> = after_read_world"
    "fault command_world (clock after_read_world) = None"
    "fault command_world (Suc (clock after_read_world)) = None"
    "clock after_read_world + 2 = 6"
    by (simp_all add: after_read_world_def command_world_eq example_world_def)
  note inst = duplicate_notification_not_executed [OF h, of ascii_decode]
  from inst d have first: "handler ascii_decode command_world = (Inr (), after_read_world)"
    by (simp only: parse_read_example snd_conv b(1)) simp
  from inst first s b
  have "handler ascii_decode after_read_world = (Inr (), after_read_world\<lparr>clock := 6\<rparr>)"
    by simp
  with first h d s a show ?thesis by simp
qed

section \<open>The empty command\<close>

lemma trim_empty_iff: "trim s = [] \<longleftrightarrow> (\<forall>c \<in> set s. isWhiteSpace c)"
proof
  assume "trim s = []"
  then have all: "\<forall>c \<in> set (dropWhile isWhiteSpace s). isWhiteSpace c"
    by (simp add: trim_def)
  have "dropWhile isWhiteSpace s = []"
  proof (rule ccontr)
    assume ne: "dropWhile isWhiteSpace s \<noteq> []"
    then have "\<not> isWhiteSpace (hd (dropWhile isWhiteSpace s))" by (rule hd_dropWhile)
    moreover from ne have "hd (dropWhile isWhiteSpace s) \<in> set (dropWhile isWhiteSpace s)"
      by (rule hd_in_set)
    ultimately show False using all by blast
  qed
  then show "\<forall>c \<in> set s. isWhiteSpace c" by simp
next
  assume "\<forall>c \<in> set s. isWhiteSpace c"
  then show "trim s = []" by (auto simp: trim_def dest: set_dropWhileD)
qed

lemma isWhiteSpace_cr_lf: "isWhiteSpace 0xD" "isWhiteSpace 0xA"
  by (simp_all add: isWhiteSpace_def)

lemma crlf_to_lf_whitespace:
  "(\<forall>c \<in> set (crlf_to_lf s). isWhiteSpace c) \<longleftrightarrow> (\<forall>c \<in> set s. isWhiteSpace c)"
  by (induction s rule: crlf_to_lf.induct) (auto simp: isWhiteSpace_cr_lf)

lemma crlf_to_lf_empty: "crlf_to_lf s = [] \<longleftrightarrow> s = []"
  by (induction s rule: crlf_to_lf.induct) auto

lemma normalize_empty_iff: "normalize_spec raw = [] \<longleftrightarrow> normalize_command raw = []"
  by (simp add: normalize_spec_def normalize_command_def trim_empty_iff crlf_to_lf_whitespace
      crlf_to_lf_empty)

text \<open>
  C8. A raw input that normalises to the empty string, in the order of the specification
  or in the order of the source, is answered with the warning for an empty command, and
  nothing else of the world changes: no file-system call is made.
\<close>

theorem empty_command_ignored:
  assumes "normalize_spec raw = []"
  shows "normalize_command raw = []
    \<and> parseAndExecute raw w = (Inr (), w\<lparr>log := log w @ [Warn ReceivedEmptyCommand]\<rparr>)"
  using assms by (simp add: normalize_empty_iff parseAndExecute_def logger_def)

theorem empty_command_ignored_witness:
  "normalize_spec (0xFEFF # js ''  '' @ [0xD, 0xA]) = []
   \<and> parseAndExecute (0xFEFF # js ''  '' @ [0xD, 0xA]) example_world =
       (Inr (), example_world\<lparr>log := [Warn ReceivedEmptyCommand]\<rparr>)"
proof -
  have n: "normalize_spec (0xFEFF # js ''  '' @ [0xD, 0xA]) = []"
    by (simp add: normalize_spec_def js_eval)
  have "log example_world = []" by (simp add: example_world_def)
  with empty_command_ignored [OF n, of example_world] n show ?thesis by simp
qed

section \<open>Existence checks\<close>

lemma pathExists_eq:
  "pathExists p w =
     (case fs_access p w of (Inl e, w') \<Rightarrow> (Inr False, w') | (Inr x, w') \<Rightarrow> (Inr True, w'))"
  by (simp add: pathExists_def try_catch_def andThen_def ret_def split: prod.splits sum.splits)

lemma fs_access_nodes: "fs_access p w = (r, w') \<Longrightarrow> w' = w\<lparr>clock := Suc (clock w)\<rparr>"
  by (auto simp: fs_access_def syscall_def Let_def split: option.splits)


text \<open>
  C6, as the claim states it, does not hold: the old and the new path are both on disk,
  the access check of the new path fails (\<^verbatim>\<open>EACCES\<close> at the second call), \<open>pathExists\<close>
  answers false for it, and \<open>renameFile\<close> renames the old file over the new one: the text
  of \<^verbatim>\<open>b.txt\<close> is lost, \<^verbatim>\<open>a.txt\<close> is gone, and a success is logged.
\<close>

theorem rename_overwrites_when_check_fails:
  "lookup (nodes second_call_denied_world) (js ''/work/a.txt'') = Some (File (js ''hello''))
   \<and> lookup (nodes second_call_denied_world) (js ''/work/b.txt'') = Some (File (js ''world''))
   \<and> renameFile (js ''a.txt'') (js ''b.txt'') second_call_denied_world =
        (Inr (), second_call_denied_world\<lparr>
           nodes := [(js ''/work'', Dir), (js ''/work/b.txt'', File (js ''hello'')),
                     (js ''/work/command.txt'', File [])],
           clock := 4,
           log := [Success (FileRenamed (js ''/work/a.txt'') (js ''/work/b.txt''))]\<rparr>)"
proof -
  have l: "lookup (nodes second_call_denied_world) (js ''/work/a.txt'')
      = Some (File (js ''hello''))"
    "lookup (nodes second_call_denied_world) (js ''/work/b.txt'')
      = Some (File (js ''world''))"
    by (simp_all add: second_call_denied_world_def example_world_def lookup_def js_def)
  have r: "renameFile (js ''a.txt'') (js ''b.txt'') second_call_denied_world =
        (Inr (), second_call_denied_world\<lparr>
           nodes := [(js ''/work'', Dir), (js ''/work/b.txt'', File (js ''hello'')),
                     (js ''/work/command.txt'', File [])],
           clock := 4,
           log := [Success (FileRenamed (js ''/work/a.txt'') (js ''/work/b.txt''))]\<rparr>)"
    by (simp add: renameFile_def renameFile_try_def io_eval fs_eval fs_rename_def
        syscall_moving_def rename_handle_def move_key_def below_def resolveSafePath_def
        second_call_denied_world_def example_world_def fault_only_def js_eval path_eval
        upt_rec)
  from l r show ?thesis by simp
qed



text \<open>
  C10. \<open>pathExists\<close> answers false whenever the access check fails, whatever the reason.
  So a path whose access check fails, also one that is on disk, is treated as not found by
  delete, read, file info, rename and copy: a warning, and no change of the file system.
\<close>

theorem inaccessible_is_not_found:
  assumes "resolveSafePath (cwd w) rawPath = Inr filePath"
    and "fs_access filePath w = (Inl e, w1)"
  shows "pathExists filePath w = (Inr False, w1) \<and> nodes w1 = nodes w
    \<and> deleteFile rawPath w =
        (Inr (), w1\<lparr>log := log w1 @ [Warn (FileNotFoundCannotDelete filePath)]\<rparr>)
    \<and> readFile rawPath w = (Inr (), w1\<lparr>log := log w1 @ [Warn (FileNotFound filePath)]\<rparr>)
    \<and> fileInfo rawPath w = (Inr (), w1\<lparr>log := log w1 @ [Warn (PathNotFound filePath)]\<rparr>)
    \<and> (\<forall>rawOther other. resolveSafePath (cwd w) rawOther = Inr other \<longrightarrow>
          renameFile rawPath rawOther w =
            (Inr (), w1\<lparr>log := log w1 @ [Warn (SourceFileNotFound filePath)]\<rparr>)
        \<and> copyFile rawPath rawOther w =
            (Inr (), w1\<lparr>log := log w1 @ [Warn (SourceFileNotFound filePath)]\<rparr>))"
proof -
  from assms(2) have w1: "w1 = w\<lparr>clock := Suc (clock w)\<rparr>" by (rule fs_access_nodes)
  from assms(2) have ex: "pathExists filePath w = (Inr False, w1)" by (simp add: pathExists_eq)
  show ?thesis
    using assms(1) ex w1
    by (simp add: deleteFile_def deleteFile_try_def readFile_def readFile_try_def fileInfo_def
        fileInfo_try_def renameFile_def renameFile_try_def copyFile_def copyFile_try_def
        try_catch_logger andThen_def safePath_def logger_def)
qed

theorem inaccessible_is_not_found_witness:
  "lookup (nodes denied_world) (js ''/work/a.txt'') = Some (File (js ''hello''))
   \<and> fs_access (js ''/work/a.txt'') denied_world = (Inl (FsError EACCES), denied_world\<lparr>clock := 1\<rparr>)
   \<and> deleteFile (js ''a.txt'') denied_world =
        (Inr (), denied_world\<lparr>clock := 1,
           log := [Warn (FileNotFoundCannotDelete (js ''/work/a.txt''))]\<rparr>)
   \<and> renameFile (js ''a.txt'') (js ''b.txt'') denied_world =
        (Inr (), denied_world\<lparr>clock := 1,
           log := [Warn (SourceFileNotFound (js ''/work/a.txt''))]\<rparr>)"
proof -
  have l: "lookup (nodes denied_world) (js ''/work/a.txt'') = Some (File (js ''hello''))"
    by (simp add: denied_world_def example_world_def lookup_def js_def)
  have r: "resolveSafePath (cwd denied_world) (js ''a.txt'') = Inr (js ''/work/a.txt'')"
    "resolveSafePath (cwd denied_world) (js ''b.txt'') = Inr (js ''/work/b.txt'')"
    using example_resolve_a example_resolve_b by (simp_all add: denied_world_def)
  have a: "fs_access (js ''/work/a.txt'') denied_world
      = (Inl (FsError EACCES), denied_world\<lparr>clock := 1\<rparr>)"
    by (simp add: fs_access_def syscall_def denied_world_def example_world_def)
  have c: "log denied_world = []" by (simp add: denied_world_def example_world_def)
  from inaccessible_is_not_found [OF r(1) a] r(2) l a c show ?thesis by simp
qed

section \<open>Splitting a command at its separator\<close>

text \<open>
  \<open>indexOf\<close> returns the first occurrence: the pattern starts there and at no smaller
  index. \<open>trim\<close> returns a slice of its argument, so what is trimmed out of the text before
  the first occurrence holds no occurrence.
\<close>

lemma indexOf_Some:
  "indexOf s p = Some i \<Longrightarrow>
     startsWith (drop i s) p \<and> (\<forall>j<i. \<not> startsWith (drop j s) p)"
proof (induction s arbitrary: i)
  case Nil
  then show ?case by (simp add: startsWith_def split: if_splits)
next
  case (Cons c cs)
  show ?case
  proof (cases "startsWith (c # cs) p")
    case True
    with Cons.prems show ?thesis by simp
  next
    case False
    with Cons.prems obtain k where k: "indexOf cs p = Some k" "i = Suc k" by auto
    from Cons.IH [OF k(1)] False k(2) show ?thesis
      by (auto simp: less_Suc_eq_0_disj)
  qed
qed

lemma indexOf_None:
  "(\<forall>j. \<not> startsWith (drop j s) p) \<Longrightarrow> indexOf s p = None"
proof (induction s)
  case Nil
  from Nil [rule_format, of 0] show ?case by (auto simp: startsWith_def)
next
  case (Cons c cs)
  from Cons.prems [rule_format, of 0] have "\<not> startsWith (c # cs) p" by simp
  moreover have "\<forall>j. \<not> startsWith (drop j cs) p"
    using Cons.prems [rule_format, of "Suc _"] by simp
  ultimately show ?case using Cons.IH by simp
qed

lemma startsWith_take:
  "startsWith (take m y) p \<Longrightarrow> p \<noteq> [] \<Longrightarrow> startsWith y p \<and> length p \<le> m"
proof -
  assume a: "startsWith (take m y) p" and ne: "p \<noteq> []"
  from a have e: "take (length p) (take m y) = p" by (simp add: startsWith_def)
  then have "length p = length (take (length p) (take m y))" by simp
  then have le: "length p \<le> m" by simp
  with e have "take (length p) y = p" by (simp add: min_def)
  with le show ?thesis by (simp add: startsWith_def)
qed

lemma startsWith_nonempty:
  "startsWith y p \<Longrightarrow> p \<noteq> [] \<Longrightarrow> y \<noteq> []"
  by (auto simp: startsWith_def)

lemma trim_is_slice: "\<exists>k n. trim x = take n (drop k x)"
proof -
  let ?y = "dropWhile isWhiteSpace x"
  have "?y = drop (length (takeWhile isWhiteSpace x)) x" by (rule dropWhile_eq_drop)
  moreover have "rev (dropWhile isWhiteSpace (rev ?y))
      = take (length ?y - length (takeWhile isWhiteSpace (rev ?y))) ?y"
    by (simp add: dropWhile_eq_drop [of _ "rev ?y"] rev_drop)
  ultimately show ?thesis unfolding trim_def by metis
qed

lemma no_separator_left_of_first:
  assumes "indexOf rest p = Some i" and "p \<noteq> []"
  shows "indexOf (trim (take i rest)) p = None"
proof (rule indexOf_None, intro allI notI)
  fix j
  assume s: "startsWith (drop j (trim (take i rest))) p"
  obtain k n where t: "trim (take i rest) = take n (drop k (take i rest))"
    using trim_is_slice by blast
  have "drop j (trim (take i rest)) = take (n - j) (take (i - (k + j)) (drop (k + j) rest))"
  proof -
    have "min n (i - k) - j = min (n - j) (i - (j + k))" by arith
    then show ?thesis by (simp add: t drop_take add.commute)
  qed
  with s have "startsWith (take (n - j) (take (i - (k + j)) (drop (k + j) rest))) p"
    by (simp only:)
  from startsWith_take [OF this assms(2)]
  have 1: "startsWith (take (i - (k + j)) (drop (k + j) rest)) p" by (rule conjunct1)
  from startsWith_take [OF 1 assms(2)]
  have "startsWith (drop (k + j) rest) p" "length p \<le> i - (k + j)" by simp_all
  moreover from assms(2) have "0 < length p" by simp
  ultimately have "startsWith (drop (k + j) rest) p" "k + j < i" by linarith+
  with indexOf_Some [OF assms(1)] show False by blast
qed

lemma startsWith_prefix_take:
  "startsWith c p \<Longrightarrow> n \<le> length p \<Longrightarrow> take n c = take n p"
proof -
  assume "startsWith c p" and n: "n \<le> length p"
  then have "take n (take (length p) c) = take n p" by (simp add: startsWith_def)
  with n show ?thesis by (simp add: min_def)
qed

lemma verb_take2:
  "startsWith c CREATE_FILE \<Longrightarrow> take 2 c = [0x63, 0x72]"
  "startsWith c DELETE_FILE \<Longrightarrow> take 2 c = [0x64, 0x65]"
  "startsWith c RENAME_FILE \<Longrightarrow> take 2 c = [0x72, 0x65]"
  "startsWith c ADD_TO_FILE \<Longrightarrow> take 2 c = [0x61, 0x64]"
  "startsWith c READ_FILE \<Longrightarrow> take 2 c = [0x72, 0x65]"
  "startsWith c COPY_FILE \<Longrightarrow> take 2 c = [0x63, 0x6F]"
  by (drule startsWith_prefix_take [where n = 2]; simp add: command_consts js_def)+

lemma verbs_exclusive:
  "startsWith c RENAME_FILE \<Longrightarrow> \<not> startsWith c CREATE_FILE \<and> \<not> startsWith c DELETE_FILE"
  "startsWith c ADD_TO_FILE \<Longrightarrow>
     \<not> startsWith c CREATE_FILE \<and> \<not> startsWith c DELETE_FILE \<and> \<not> startsWith c RENAME_FILE"
  "startsWith c COPY_FILE \<Longrightarrow>
     \<not> startsWith c CREATE_FILE \<and> \<not> startsWith c DELETE_FILE \<and> \<not> startsWith c RENAME_FILE
     \<and> \<not> startsWith c ADD_TO_FILE \<and> \<not> startsWith c READ_FILE"
proof -
  show "startsWith c RENAME_FILE \<Longrightarrow> \<not> startsWith c CREATE_FILE \<and> \<not> startsWith c DELETE_FILE"
    using verb_take2 [of c] by fastforce
  show "startsWith c ADD_TO_FILE \<Longrightarrow>
     \<not> startsWith c CREATE_FILE \<and> \<not> startsWith c DELETE_FILE \<and> \<not> startsWith c RENAME_FILE"
    using verb_take2 [of c] by fastforce
  show "startsWith c COPY_FILE \<Longrightarrow>
     \<not> startsWith c CREATE_FILE \<and> \<not> startsWith c DELETE_FILE \<and> \<not> startsWith c RENAME_FILE
     \<and> \<not> startsWith c ADD_TO_FILE \<and> \<not> startsWith c READ_FILE"
    using verb_take2 [of c] by fastforce
qed

lemma verb_nonempty:
  "startsWith c RENAME_FILE \<or> startsWith c ADD_TO_FILE \<or> startsWith c COPY_FILE \<Longrightarrow> c \<noteq> []"
  using verb_take2 [of c] by fastforce

lemma separator_nonempty: "to_separator \<noteq> []" "marker \<noteq> []" "length marker = 15"
  by (simp_all add: to_separator_def marker_def js_def)

lemma parse_rename:
  assumes "startsWith (normalize_command raw) RENAME_FILE"
    and "indexOf (trim (substring_from (normalize_command raw) (length RENAME_FILE)))
           to_separator = Some i"
  shows "parseAndExecute raw w =
     renameFile
       (trim (substring_to (trim (substring_from (normalize_command raw) (length RENAME_FILE))) i))
       (trim (substring_from (trim (substring_from (normalize_command raw) (length RENAME_FILE)))
          (i + 4)))
       (w\<lparr>log := log w @ [Info (CommandReceived (normalize_command raw))]\<rparr>)"
  using assms verbs_exclusive(1) [OF assms(1)] verb_nonempty [of "normalize_command raw"]
  by (simp add: parseAndExecute_def Let_def andThen_logger)

lemma parse_copy:
  assumes "startsWith (normalize_command raw) COPY_FILE"
    and "indexOf (trim (substring_from (normalize_command raw) (length COPY_FILE)))
           to_separator = Some i"
  shows "parseAndExecute raw w =
     copyFile
       (trim (substring_to (trim (substring_from (normalize_command raw) (length COPY_FILE))) i))
       (trim (substring_from (trim (substring_from (normalize_command raw) (length COPY_FILE)))
          (i + 4)))
       (w\<lparr>log := log w @ [Info (CommandReceived (normalize_command raw))]\<rparr>)"
  using assms verbs_exclusive(3) [OF assms(1)] verb_nonempty [of "normalize_command raw"]
  by (simp add: parseAndExecute_def Let_def andThen_logger)

lemma parse_add:
  assumes "startsWith (normalize_command raw) ADD_TO_FILE"
    and "indexOf (trim (substring_from (normalize_command raw) (length ADD_TO_FILE)))
           marker = Some i"
  shows "parseAndExecute raw w =
     addToFile
       (trim (substring_to (trim (substring_from (normalize_command raw) (length ADD_TO_FILE))) i))
       (substring_from (trim (substring_from (normalize_command raw) (length ADD_TO_FILE)))
          (i + length marker))
       (w\<lparr>log := log w @ [Info (CommandReceived (normalize_command raw))]\<rparr>)"
  using assms verbs_exclusive(2) [OF assms(1)] verb_nonempty [of "normalize_command raw"]
  by (simp add: parseAndExecute_def Let_def andThen_logger)

lemma first_separator_facts:
  assumes "indexOf rest to_separator = Some i"
  shows "startsWith (drop i rest) to_separator
    \<and> (\<forall>j<i. \<not> startsWith (drop j rest) to_separator)
    \<and> indexOf (trim (substring_to rest i)) to_separator = None"
  using indexOf_Some [OF assms] no_separator_left_of_first [OF assms separator_nonempty(1)]
  by (simp add: substring_to_def)

text \<open>
  C9. The rename and copy rules split the remainder of the command at the first occurrence
  of the separator \<^verbatim>\<open> to \<close>: the text before it, trimmed, is the old or source path, the
  text after it, trimmed, the new or destination path, however often the separator occurs.
  The left operand therefore never contains the separator.
\<close>

theorem pair_split_at_first_separator:
  "(startsWith (normalize_command raw) RENAME_FILE
      \<and> rest = trim (substring_from (normalize_command raw) (length RENAME_FILE))
      \<and> indexOf rest to_separator = Some i \<longrightarrow>
        parseAndExecute raw w =
          renameFile (trim (substring_to rest i)) (trim (substring_from rest (i + 4)))
            (w\<lparr>log := log w @ [Info (CommandReceived (normalize_command raw))]\<rparr>)
        \<and> startsWith (drop i rest) to_separator
        \<and> (\<forall>j<i. \<not> startsWith (drop j rest) to_separator)
        \<and> indexOf (trim (substring_to rest i)) to_separator = None)
   \<and> (startsWith (normalize_command raw) COPY_FILE
      \<and> rest = trim (substring_from (normalize_command raw) (length COPY_FILE))
      \<and> indexOf rest to_separator = Some i \<longrightarrow>
        parseAndExecute raw w =
          copyFile (trim (substring_to rest i)) (trim (substring_from rest (i + 4)))
            (w\<lparr>log := log w @ [Info (CommandReceived (normalize_command raw))]\<rparr>)
        \<and> startsWith (drop i rest) to_separator
        \<and> (\<forall>j<i. \<not> startsWith (drop j rest) to_separator)
        \<and> indexOf (trim (substring_to rest i)) to_separator = None)"
proof (intro conjI impI)
  assume a: "startsWith (normalize_command raw) RENAME_FILE
      \<and> rest = trim (substring_from (normalize_command raw) (length RENAME_FILE))
      \<and> indexOf rest to_separator = Some i"
  then have i: "indexOf rest to_separator = Some i" by blast
  from a have s: "startsWith (normalize_command raw) RENAME_FILE"
    and r: "rest = trim (substring_from (normalize_command raw) (length RENAME_FILE))"
    by blast+
  from i have i': "indexOf (trim (substring_from (normalize_command raw) (length RENAME_FILE)))
      to_separator = Some i"
    unfolding r .
  show "parseAndExecute raw w =
          renameFile (trim (substring_to rest i)) (trim (substring_from rest (i + 4)))
            (w\<lparr>log := log w @ [Info (CommandReceived (normalize_command raw))]\<rparr>)"
    unfolding r by (rule parse_rename [OF s i'])
  from first_separator_facts [OF i]
  show "startsWith (drop i rest) to_separator"
    "\<forall>j<i. \<not> startsWith (drop j rest) to_separator"
    "indexOf (trim (substring_to rest i)) to_separator = None"
    by simp_all
next
  assume a: "startsWith (normalize_command raw) COPY_FILE
      \<and> rest = trim (substring_from (normalize_command raw) (length COPY_FILE))
      \<and> indexOf rest to_separator = Some i"
  then have i: "indexOf rest to_separator = Some i" by blast
  from a have s: "startsWith (normalize_command raw) COPY_FILE"
    and r: "rest = trim (substring_from (normalize_command raw) (length COPY_FILE))"
    by blast+
  from i have i': "indexOf (trim (substring_from (normalize_command raw) (length COPY_FILE)))
      to_separator = Some i"
    unfolding r .
  show "parseAndExecute raw w =
          copyFile (trim (substring_to rest i)) (trim (substring_from rest (i + 4)))
            (w\<lparr>log := log w @ [Info (CommandReceived (normalize_command raw))]\<rparr>)"
    unfolding r by (rule parse_copy [OF s i'])
  from first_separator_facts [OF i]
  show "startsWith (drop i rest) to_separator"
    "\<forall>j<i. \<not> startsWith (drop j rest) to_separator"
    "indexOf (trim (substring_to rest i)) to_separator = None"
    by simp_all
qed

lemma normalize_rename_example:
  "normalize_command (js ''rename the file a to b to c'') = js ''rename the file a to b to c''"
  "normalize_command (js ''copy the file a to b to c'') = js ''copy the file a to b to c''"
  by (simp_all add: normalize_command_def js_eval)

theorem pair_split_at_first_separator_witness:
  "indexOf (js ''a to b to c'') to_separator = Some 1
   \<and> parseAndExecute (js ''rename the file a to b to c'') example_world =
       renameFile (js ''a'') (js ''b to c'')
         (example_world\<lparr>log := [Info (CommandReceived (js ''rename the file a to b to c''))]\<rparr>)
   \<and> parseAndExecute (js ''copy the file a to b to c'') example_world =
       copyFile (js ''a'') (js ''b to c'')
         (example_world\<lparr>log := [Info (CommandReceived (js ''copy the file a to b to c''))]\<rparr>)
   \<and> indexOf (js ''a'') to_separator = None"
proof -
  have i: "indexOf (js ''a to b to c'') to_separator = Some 1"
    by (simp add: to_separator_def js_eval)
  have r: "startsWith (js ''rename the file a to b to c'') RENAME_FILE"
    "trim (substring_from (js ''rename the file a to b to c'') (length RENAME_FILE))
       = js ''a to b to c''"
    "startsWith (js ''copy the file a to b to c'') COPY_FILE"
    "trim (substring_from (js ''copy the file a to b to c'') (length COPY_FILE))
       = js ''a to b to c''"
    by (simp_all add: command_consts js_eval)
  have t: "trim (substring_to (js ''a to b to c'') 1) = js ''a''"
    "trim (substring_from (js ''a to b to c'') (1 + 4)) = js ''b to c''"
    by (simp_all add: js_eval)
  have l: "log example_world = []" by (simp add: example_world_def)
  from pair_split_at_first_separator [of "js ''rename the file a to b to c''"
      "js ''a to b to c''" 1 example_world]
    pair_split_at_first_separator [of "js ''copy the file a to b to c''"
      "js ''a to b to c''" 1 example_world]
  show ?thesis
    by (simp add: normalize_rename_example i r l) (simp add: js_eval to_separator_def)
qed

section \<open>Resolved paths and the directories on the way\<close>

text \<open>
  What \<open>path_resolve\<close> returns is \<open>join_absolute\<close> of segments that are not empty and hold
  no slash. On such a path \<open>path_dirname\<close> removes the last segment, and \<open>dir_chain\<close> lists
  the paths of its prefixes.
\<close>

lemma join_absolute_eq:
  "join_absolute segs = (if segs = [] then [slash] else join_segments segs)"
  by (simp add: join_absolute_def join_segments_def)

lemma join_segments_simps [simp]:
  "join_segments [] = []"
  "join_segments (s # segs) = slash # s @ join_segments segs"
  "join_segments (xs @ ys) = join_segments xs @ join_segments ys"
  by (simp_all add: join_segments_def)

lemma segments_ok_simps [simp]:
  "segments_ok []"
  "segments_ok (s # segs) \<longleftrightarrow> s \<noteq> [] \<and> slash \<notin> set s \<and> segments_ok segs"
  "segments_ok (xs @ ys) \<longleftrightarrow> segments_ok xs \<and> segments_ok ys"
  by (auto simp: segments_ok_def)

lemma split_slash_no_slash: "\<forall>seg \<in> set (split_slash s). slash \<notin> set seg"
  by (induction s) (auto split: list.splits)

lemma normalize_step_ok:
  "segments_ok acc \<Longrightarrow> slash \<notin> set seg \<Longrightarrow> segments_ok (normalize_step acc seg)"
  by (auto simp: normalize_step_def segments_ok_def dest: in_set_butlastD)

lemma foldl_normalize_ok:
  "segments_ok acc \<Longrightarrow> \<forall>seg \<in> set segs. slash \<notin> set seg \<Longrightarrow>
   segments_ok (foldl normalize_step acc segs)"
  by (induction segs arbitrary: acc) (simp_all add: normalize_step_ok)

lemma path_resolve_segments:
  "\<exists>segs. path_resolve root p = join_absolute segs \<and> segments_ok segs"
  unfolding path_resolve_def normalize_segments_def
  using foldl_normalize_ok [OF segments_ok_simps(1) split_slash_no_slash] by blast

lemma resolveSafePath_segments:
  "resolveSafePath root raw = Inr p \<Longrightarrow> \<exists>segs. p = join_absolute segs \<and> segments_ok segs"
proof -
  assume "resolveSafePath root raw = Inr p"
  then have "p = path_resolve root (trim raw)"
    by (simp add: resolveSafePath_def Let_def split: if_splits)
  with path_resolve_segments [of root "trim raw"] show ?thesis by simp
qed

lemma split_slash_nonempty: "split_slash s \<noteq> []"
  by (induction s) (auto split: list.splits)

lemma split_slash_append:
  "slash \<notin> set s \<Longrightarrow>
   split_slash (s @ t) = (case split_slash t of [] \<Rightarrow> [s] | u # us \<Rightarrow> (s @ u) # us)"
  using split_slash_nonempty [of t] by (induction s) (auto split: list.splits)

lemma split_slash_join: "segments_ok segs \<Longrightarrow> split_slash (join_segments segs) = [] # segs"
  by (induction segs) (simp_all add: split_slash_append)

lemma filter_segments_ok: "segments_ok segs \<Longrightarrow> filter (\<lambda>s. s \<noteq> []) segs = segs"
  by (induction segs) simp_all

lemma dir_chain_join:
  assumes "segments_ok segs"
  shows "dir_chain (join_absolute segs) =
    map (\<lambda>n. join_absolute (take n segs)) [1..<Suc (length segs)]"
proof (cases "segs = []")
  case True
  then show ?thesis by (simp add: dir_chain_def join_absolute_def)
next
  case False
  with assms show ?thesis
    by (simp add: dir_chain_def join_absolute_eq split_slash_join filter_segments_ok Let_def
        del: upt_Suc)
qed

lemma path_dirname_join:
  assumes "segments_ok (xs @ [s])"
  shows "path_dirname (join_absolute (xs @ [s])) = join_absolute xs"
proof -
  from assms have s: "s \<noteq> []" "slash \<notin> set s" and xs: "segments_ok xs" by simp_all
  have d1: "dropWhile (\<lambda>x. x = slash) (rev s @ t) = rev s @ t" for t
    using s by (cases "rev s") auto
  have d2: "dropWhile (\<lambda>x. x \<noteq> slash) (rev s) = []"
    using s by auto
  show ?thesis
  proof (cases xs)
    case Nil
    with s d1 [of "[]"] d2 show ?thesis
      by (simp add: path_dirname_def join_absolute_eq Let_def js_def)
  next
    case (Cons x xs')
    with xs have x: "x \<noteq> []" by simp
    define body where "body = x @ join_segments xs'"
    have p: "join_absolute (xs @ [s]) = slash # body @ slash # s"
      by (simp add: join_absolute_eq Cons body_def)
    have d: "join_absolute xs = slash # body"
      by (simp add: join_absolute_eq Cons body_def)
    have body: "body \<noteq> []" using x by (simp add: body_def)
    have r: "dropWhile (\<lambda>x. x \<noteq> slash) (rev s @ slash # rev body) = slash # rev body"
      using d2 by (simp add: dropWhile_append3)
    show ?thesis
      using body by (simp add: path_dirname_def p d d1 r Let_def)
  qed
qed

text \<open>
  \<open>mkdir_chain\<close> succeeds when no file stands in the way: it only adds directories, all
  of the chain are directories afterwards, and paths outside the chain are looked up as
  before.
\<close>

lemma lookup_append:
  "lookup (t @ xs) q = (case lookup t q of Some v \<Rightarrow> Some v | None \<Rightarrow> map_of xs q)"
  by (simp add: lookup_def map_add_def split: option.splits)

lemma lookup_update:
  "lookup (AList.update p v t) q =
     (if q = js ''/'' then Some Dir else if q = p then Some v else lookup t q)"
  by (simp add: lookup_def update_conv')

lemma mkdir_chain_ok:
  assumes "\<forall>d \<in> set ds. \<forall>c. lookup t d \<noteq> Some (File c)"
  shows "\<exists>dirs. mkdir_chain target ds t = Inr (t @ map (\<lambda>d. (d, Dir)) dirs)
     \<and> (\<forall>d \<in> set ds. lookup (t @ map (\<lambda>d. (d, Dir)) dirs) d = Some Dir)
     \<and> (\<forall>q. q \<notin> set ds \<longrightarrow> lookup (t @ map (\<lambda>d. (d, Dir)) dirs) q = lookup t q)"
  using assms
proof (induction ds arbitrary: t)
  case Nil
  have "mkdir_chain target [] t = Inr (t @ map (\<lambda>d. (d, Dir)) [])" by simp
  then show ?case by (intro exI [of _ "[]"]) simp
next
  case (Cons d ds)
  show ?case
  proof (cases "lookup t d")
    case None
    let ?t1 = "t @ [(d, Dir)]"
    have "\<forall>d' \<in> set ds. \<forall>c. lookup ?t1 d' \<noteq> Some (File c)"
      using Cons.prems by (auto simp: lookup_append split: option.splits if_splits)
    from Cons.IH [OF this] obtain dirs where
      m: "mkdir_chain target ds ?t1 = Inr (?t1 @ map (\<lambda>d. (d, Dir)) dirs)"
      and a: "\<forall>d' \<in> set ds. lookup (?t1 @ map (\<lambda>d. (d, Dir)) dirs) d' = Some Dir"
      and b: "\<forall>q. q \<notin> set ds \<longrightarrow> lookup (?t1 @ map (\<lambda>d. (d, Dir)) dirs) q = lookup ?t1 q"
      by blast
    have e: "?t1 @ map (\<lambda>d. (d, Dir)) dirs = t @ map (\<lambda>d. (d, Dir)) (d # dirs)" by simp
    have d: "lookup (?t1 @ map (\<lambda>d. (d, Dir)) dirs) d = Some Dir"
      using None by (simp add: lookup_append [of ?t1] lookup_append [of t])
    have c: "\<forall>q. q \<notin> set (d # ds) \<longrightarrow> lookup (?t1 @ map (\<lambda>d. (d, Dir)) dirs) q = lookup t q"
      using b by (auto simp: lookup_append [of t "[(d, Dir)]"] split: option.splits)
    show ?thesis
      apply (rule exI [of _ "d # dirs"])
      using None m a d c unfolding e [symmetric] by simp
  next
    case (Some n)
    with Cons.prems have n: "n = Dir" by (cases n) auto
    have "\<forall>d' \<in> set ds. \<forall>c. lookup t d' \<noteq> Some (File c)" using Cons.prems by simp
    from Cons.IH [OF this] obtain dirs where
      m: "mkdir_chain target ds t = Inr (t @ map (\<lambda>d. (d, Dir)) dirs)"
      and a: "\<forall>d' \<in> set ds. lookup (t @ map (\<lambda>d. (d, Dir)) dirs) d' = Some Dir"
      and b: "\<forall>q. q \<notin> set ds \<longrightarrow> lookup (t @ map (\<lambda>d. (d, Dir)) dirs) q = lookup t q"
      by blast
    have d: "lookup (t @ map (\<lambda>d. (d, Dir)) dirs) d = Some Dir"
      using Some n by (simp add: lookup_append)
    show ?thesis
      apply (rule exI [of _ dirs])
      using Some n m a b d by simp
  qed
qed

lemma length_join_take:
  "length (join_segments (take n xs)) \<le> length (join_segments xs)"
proof -
  have "join_segments xs = join_segments (take n xs) @ join_segments (drop n xs)"
    by (simp flip: join_segments_simps(3))
  then show ?thesis by simp
qed

text \<open>
  A resolved path other than the root: its directory is resolved as well, the chain of
  directories to create does not contain the path itself, and ends at the directory.
\<close>

lemma resolved_path_facts:
  assumes "segments_ok (xs @ [s])" and "p = join_absolute (xs @ [s])"
  shows "path_dirname p = join_absolute xs"
    and "p \<notin> set (dir_chain (path_dirname p))"
    and "path_dirname p = js ''/'' \<or> path_dirname p \<in> set (dir_chain (path_dirname p))"
    and "p \<noteq> js ''/''"
proof -
  from assms(1) have xs: "segments_ok xs" and s: "s \<noteq> []" by simp_all
  show d: "path_dirname p = join_absolute xs"
    unfolding assms(2) using assms(1) by (rule path_dirname_join)
  have chain: "dir_chain (path_dirname p) =
      map (\<lambda>n. join_absolute (take n xs)) [1..<Suc (length xs)]"
    unfolding d using xs by (rule dir_chain_join)
  have len: "length (join_absolute xs) < length p"
    unfolding assms(2) using s by (simp add: join_absolute_eq)
  have "length e \<le> length (join_absolute xs)" if "e \<in> set (dir_chain (path_dirname p))" for e
  proof -
    from that chain obtain n where n: "1 \<le> n" "n \<le> length xs" "e = join_absolute (take n xs)"
      by auto
    then have "xs \<noteq> []" "take n xs \<noteq> []" by auto
    with n(3) show ?thesis by (simp add: join_absolute_eq length_join_take)
  qed
  with len show "p \<notin> set (dir_chain (path_dirname p))" by fastforce
  show "path_dirname p = js ''/'' \<or> path_dirname p \<in> set (dir_chain (path_dirname p))"
  proof (cases "xs = []")
    case True
    then show ?thesis by (simp add: d join_absolute_def js_def)
  next
    case False
    then have "length xs \<in> set [1..<Suc (length xs)]" by (cases xs) simp_all
    then have "join_absolute (take (length xs) xs) \<in> set (dir_chain (path_dirname p))"
      unfolding chain set_map by (rule imageI)
    then show ?thesis by (simp add: d)
  qed
  have "2 \<le> length p"
    unfolding assms(2) using s by (cases s) (simp_all add: join_absolute_eq)
  then show "p \<noteq> js ''/''"
    by (auto simp: js_def)
qed

lemma resolved_not_root:
  assumes "resolveSafePath root raw = Inr p" and "lookup t p \<noteq> Some Dir"
  shows "\<exists>xs s. segments_ok (xs @ [s]) \<and> p = join_absolute (xs @ [s])"
proof -
  from resolveSafePath_segments [OF assms(1)]
  obtain segs where segs: "p = join_absolute segs" "segments_ok segs" by blast
  have "segs \<noteq> []"
  proof
    assume "segs = []"
    with segs(1) have "p = js ''/''" by (simp add: join_absolute_def js_def)
    with assms(2) show False by (simp add: lookup_def)
  qed
  then have "segs = butlast segs @ [last segs]" by simp
  with segs show ?thesis by metis
qed

lemma mkdir_for_file:
  assumes "resolveSafePath root raw = Inr p" and "lookup t p \<noteq> Some Dir"
    and "\<forall>d \<in> set (dir_chain (path_dirname p)). \<forall>c. lookup t d \<noteq> Some (File c)"
  shows "\<exists>dirs. mkdir_chain (path_dirname p) (dir_chain (path_dirname p)) t
        = Inr (t @ map (\<lambda>d. (d, Dir)) dirs)
     \<and> lookup (t @ map (\<lambda>d. (d, Dir)) dirs) (path_dirname p) = Some Dir
     \<and> lookup (t @ map (\<lambda>d. (d, Dir)) dirs) p = lookup t p"
proof -
  from resolved_not_root [OF assms(1,2)] obtain xs s
    where ok: "segments_ok (xs @ [s])" and p: "p = join_absolute (xs @ [s])" by blast
  note facts = resolved_path_facts [OF ok p]
  from mkdir_chain_ok [OF assms(3), of "path_dirname p"] obtain dirs where
    m: "mkdir_chain (path_dirname p) (dir_chain (path_dirname p)) t
        = Inr (t @ map (\<lambda>d. (d, Dir)) dirs)"
    and a: "\<forall>d \<in> set (dir_chain (path_dirname p)).
        lookup (t @ map (\<lambda>d. (d, Dir)) dirs) d = Some Dir"
    and b: "\<forall>q. q \<notin> set (dir_chain (path_dirname p)) \<longrightarrow>
        lookup (t @ map (\<lambda>d. (d, Dir)) dirs) q = lookup t q"
    by blast
  from facts(3) a have "lookup (t @ map (\<lambda>d. (d, Dir)) dirs) (path_dirname p) = Some Dir"
    by (auto simp: lookup_def)
  moreover from facts(2) b have "lookup (t @ map (\<lambda>d. (d, Dir)) dirs) p = lookup t p"
    by simp
  ultimately show ?thesis using m by blast
qed

section \<open>Creating a file\<close>

lemma createFile_fresh:
  assumes r: "resolveSafePath (cwd w) rawPath = Inr filePath"
    and absent: "lookup (nodes w) filePath = None"
    and way: "\<forall>d \<in> set (dir_chain (path_dirname filePath)).
        \<forall>c. lookup (nodes w) d \<noteq> Some (File c)"
    and nofault: "\<forall>k<4. fault w (clock w + k) = None"
  shows "\<exists>dirs. createFile rawPath w =
      (Inr (), w\<lparr>nodes := nodes w @ map (\<lambda>d. (d, Dir)) dirs @ [(filePath, File [])],
                 clock := clock w + 4,
                 log := log w @ [Success (FileCreated filePath)]\<rparr>)
     \<and> lookup (nodes w @ map (\<lambda>d. (d, Dir)) dirs @ [(filePath, File [])]) filePath
          = Some (File [])"
proof -
  from absent have nd: "lookup (nodes w) filePath \<noteq> Some Dir" by simp
  from mkdir_for_file [OF r nd way] obtain dirs where
    m: "mkdir_chain (path_dirname filePath) (dir_chain (path_dirname filePath)) (nodes w)
        = Inr (nodes w @ map (\<lambda>d. (d, Dir)) dirs)"
    and d: "lookup (nodes w @ map (\<lambda>d. (d, Dir)) dirs) (path_dirname filePath) = Some Dir"
    and p: "lookup (nodes w @ map (\<lambda>d. (d, Dir)) dirs) filePath = lookup (nodes w) filePath"
    by blast
  have f: "fault w (clock w) = None" "fault w (Suc (clock w)) = None"
    "fault w (Suc (Suc (clock w))) = None" "fault w (Suc (Suc (Suc (clock w)))) = None"
    using nofault [rule_format, of 0] nofault [rule_format, of "Suc 0"]
      nofault [rule_format, of "Suc (Suc 0)"] nofault [rule_format, of "Suc (Suc (Suc 0))"]
    by simp_all
  have "createFile rawPath w =
      (Inr (), w\<lparr>nodes := nodes w @ map (\<lambda>d. (d, Dir)) dirs @ [(filePath, File [])],
                 clock := clock w + 4,
                 log := log w @ [Success (FileCreated filePath)]\<rparr>)"
    using r absent m d p f
    by (simp add: createFile_def createFile_try_def try_catch_def andThen_def ret_def
        logger_def safePath_def pathExists_def fs_access_def fs_mkdir_recursive_def fs_open_def
        handle_close_def syscall_def Let_def)
  moreover have "lookup (nodes w @ map (\<lambda>d. (d, Dir)) dirs @ [(filePath, File [])]) filePath
          = Some (File [])"
    using lookup_append [of "nodes w @ map (\<lambda>d. (d, Dir)) dirs" "[(filePath, File [])]" filePath]
      p absent by simp
  ultimately show ?thesis by blast
qed

lemma createFile_existing:
  assumes r: "resolveSafePath (cwd w) rawPath = Inr filePath"
    and present: "lookup (nodes w) filePath \<noteq> None"
    and nofault: "fault w (clock w) = None"
  shows "createFile rawPath w =
      (Inr (), w\<lparr>clock := Suc (clock w),
                 log := log w @ [Warn (FileAlreadyExists filePath)]\<rparr>)"
  using assms
  by (auto simp: createFile_def createFile_try_def try_catch_def andThen_def ret_def
        logger_def safePath_def pathExists_def fs_access_def syscall_def Let_def)

text \<open>
  C7. \<open>createFile\<close> is idempotent. On a path that does not exist (where no file stands in
  the way of its directories and the calls of the file system succeed), the first call
  adds the missing directories and exactly one file, with empty content, and logs the
  success; the second call on the same path makes only the existence check and logs one
  warning; the file is there, empty, after both.
\<close>

theorem createFile_idempotent:
  assumes "resolveSafePath (cwd w) rawPath = Inr filePath"
    and "lookup (nodes w) filePath = None"
    and "\<forall>d \<in> set (dir_chain (path_dirname filePath)). \<forall>c. lookup (nodes w) d \<noteq> Some (File c)"
    and "\<forall>k<5. fault w (clock w + k) = None"
  shows "\<exists>dirs w1. createFile rawPath w = (Inr (), w1)
     \<and> nodes w1 = nodes w @ map (\<lambda>d. (d, Dir)) dirs @ [(filePath, File [])]
     \<and> log w1 = log w @ [Success (FileCreated filePath)]
     \<and> lookup (nodes w1) filePath = Some (File [])
     \<and> createFile rawPath w1 =
         (Inr (), w1\<lparr>clock := Suc (clock w1),
                      log := log w1 @ [Warn (FileAlreadyExists filePath)]\<rparr>)"
proof -
  from assms(4) have four: "\<forall>k<4. fault w (clock w + k) = None" by simp
  from createFile_fresh [OF assms(1-3) four] obtain dirs where
    c: "createFile rawPath w =
      (Inr (), w\<lparr>nodes := nodes w @ map (\<lambda>d. (d, Dir)) dirs @ [(filePath, File [])],
                 clock := clock w + 4,
                 log := log w @ [Success (FileCreated filePath)]\<rparr>)"
    and l: "lookup (nodes w @ map (\<lambda>d. (d, Dir)) dirs @ [(filePath, File [])]) filePath
          = Some (File [])"
    by blast
  let ?w1 = "w\<lparr>nodes := nodes w @ map (\<lambda>d. (d, Dir)) dirs @ [(filePath, File [])],
                 clock := clock w + 4,
                 log := log w @ [Success (FileCreated filePath)]\<rparr>"
  have "createFile rawPath ?w1 =
         (Inr (), ?w1\<lparr>clock := Suc (clock ?w1),
                      log := log ?w1 @ [Warn (FileAlreadyExists filePath)]\<rparr>)"
    using assms(1) l assms(4) [rule_format, of 4]
    by (intro createFile_existing) simp_all
  with c l show ?thesis
    by (intro exI [of _ dirs] exI [of _ ?w1]) simp
qed

theorem createFile_idempotent_witness:
  "resolveSafePath (cwd example_world) (js ''sub/c.txt'') = Inr (js ''/work/sub/c.txt'')
   \<and> lookup (nodes example_world) (js ''/work/sub/c.txt'') = None
   \<and> (\<exists>dirs w1. createFile (js ''sub/c.txt'') example_world = (Inr (), w1)
        \<and> nodes w1 = nodes example_world @ map (\<lambda>d. (d, Dir)) dirs
             @ [(js ''/work/sub/c.txt'', File [])]
        \<and> log w1 = log example_world @ [Success (FileCreated (js ''/work/sub/c.txt''))]
        \<and> lookup (nodes w1) (js ''/work/sub/c.txt'') = Some (File [])
        \<and> createFile (js ''sub/c.txt'') w1 =
            (Inr (), w1\<lparr>clock := Suc (clock w1),
               log := log w1 @ [Warn (FileAlreadyExists (js ''/work/sub/c.txt''))]\<rparr>))
   \<and> createFile (js ''sub/c.txt'') example_world =
        (Inr (), example_world\<lparr>
           nodes := nodes example_world
             @ [(js ''/work/sub'', Dir), (js ''/work/sub/c.txt'', File [])],
           clock := 4, log := [Success (FileCreated (js ''/work/sub/c.txt''))]\<rparr>)"
proof -
  have absent: "lookup (nodes example_world) (js ''/work/sub/c.txt'') = None"
    by (simp add: example_world_def lookup_def js_def)
  have way: "\<forall>d \<in> set (dir_chain (path_dirname (js ''/work/sub/c.txt''))).
      \<forall>c. lookup (nodes example_world) d \<noteq> Some (File c)"
    unfolding example_chain_sub by (simp add: example_world_def lookup_def js_def)
  have nofault: "\<forall>k<5. fault example_world (clock example_world + k) = None"
    by (simp add: example_world_def)
  have run: "createFile (js ''sub/c.txt'') example_world =
        (Inr (), example_world\<lparr>
           nodes := nodes example_world
             @ [(js ''/work/sub'', Dir), (js ''/work/sub/c.txt'', File [])],
           clock := 4, log := [Success (FileCreated (js ''/work/sub/c.txt''))]\<rparr>)"
    by (simp add: createFile_def createFile_try_def io_eval fs_eval resolveSafePath_def
        example_world_def js_eval path_eval upt_rec)
  from createFile_idempotent [OF example_resolve_sub absent way nofault]
    example_resolve_sub absent run
  show ?thesis by blast
qed

section \<open>Appending to a file\<close>

lemma addToFile_appends:
  assumes r: "resolveSafePath (cwd w) rawPath = Inr filePath"
    and notdir: "lookup (nodes w) filePath \<noteq> Some Dir"
    and way: "\<forall>d \<in> set (dir_chain (path_dirname filePath)).
        \<forall>c. lookup (nodes w) d \<noteq> Some (File c)"
    and nofault: "\<forall>k<4. fault w (clock w + k) = None"
  shows "\<exists>w1. addToFile rawPath content w = (Inr (), w1)
    \<and> lookup (nodes w1) filePath =
        Some (File ((case lookup (nodes w) filePath of Some (File c) \<Rightarrow> c | _ \<Rightarrow> [])
                     @ content))
    \<and> log w1 = log w @ [Success (ContentAppendedTo filePath)]"
proof -
  from mkdir_for_file [OF r notdir way] obtain t1 where
    m: "mkdir_chain (path_dirname filePath) (dir_chain (path_dirname filePath)) (nodes w)
        = Inr t1"
    and d: "lookup t1 (path_dirname filePath) = Some Dir"
    and p: "lookup t1 filePath = lookup (nodes w) filePath"
    by blast
  from resolved_not_root [OF r notdir] resolved_path_facts(4)
  have nr: "filePath \<noteq> js ''/''" by blast
  have f: "fault w (clock w) = None" "fault w (Suc (clock w)) = None"
    "fault w (Suc (Suc (clock w))) = None" "fault w (Suc (Suc (Suc (clock w)))) = None"
    using nofault [rule_format, of 0] nofault [rule_format, of "Suc 0"]
      nofault [rule_format, of "Suc (Suc 0)"] nofault [rule_format, of "Suc (Suc (Suc 0))"]
    by simp_all
  show ?thesis
  proof (cases "lookup (nodes w) filePath")
    case None
    with r m d p f nr show ?thesis
      by (simp add: addToFile_def addToFile_try_def try_catch_def andThen_def ret_def
        logger_def safePath_def fs_mkdir_recursive_def fs_open_def handle_write_def
        handle_close_def syscall_def Let_def lookup_append lookup_update)
  next
    case (Some n)
    with notdir obtain c where c: "n = File c" by (cases n) auto
    with Some r m d p f nr show ?thesis
      by (simp add: addToFile_def addToFile_try_def try_catch_def andThen_def ret_def
        logger_def safePath_def fs_mkdir_recursive_def fs_open_def handle_write_def
        handle_close_def syscall_def Let_def lookup_append lookup_update)
  qed
qed

lemma trim_last: "trim x \<noteq> [] \<Longrightarrow> \<not> isWhiteSpace (last (trim x))"
proof -
  assume "trim x \<noteq> []"
  then have ne: "dropWhile isWhiteSpace (rev (dropWhile isWhiteSpace x)) \<noteq> []"
    by (simp add: trim_def)
  then have "\<not> isWhiteSpace (hd (dropWhile isWhiteSpace (rev (dropWhile isWhiteSpace x))))"
    by (rule hd_dropWhile)
  with ne show ?thesis by (simp add: trim_def last_rev)
qed

lemma run_add_example:
  "parseAndExecute (js ''add to the file c.txt this content: hi  '') example_world =
     (Inr (), example_world\<lparr>
        nodes := nodes example_world @ [(js ''/work/c.txt'', File (js ''hi''))],
        clock := 4,
        log := [Info (CommandReceived (js ''add to the file c.txt this content: hi'')),
                Success (ContentAppendedTo (js ''/work/c.txt''))]\<rparr>)"
  by (simp add: parseAndExecute_def normalize_command_def command_consts addToFile_def
      addToFile_try_def io_eval fs_eval resolveSafePath_def example_world_def js_eval path_eval
      upt_rec)

text \<open>
  C2, as the claim states it, fails: the whole command is trimmed before it is split, so
  whitespace at the end of the payload is lost. The command
  \<^verbatim>\<open>add to the file c.txt this content: hi\<close> followed by two spaces has the payload \<^verbatim>\<open>hi\<close>
  with the two spaces, and the file receives \<^verbatim>\<open>hi\<close>.
\<close>

theorem payload_trailing_whitespace_dropped:
  "payload_after_marker (js ''add to the file c.txt this content: hi  '') = Some (js ''hi  '')
   \<and> lookup (nodes example_world) (js ''/work/c.txt'') = None
   \<and> lookup (nodes (snd (parseAndExecute (js ''add to the file c.txt this content: hi  '')
         example_world))) (js ''/work/c.txt'') = Some (File (js ''hi''))
   \<and> js ''hi'' \<noteq> js ''hi  ''"
  by (simp add: run_add_example)
     (simp add: payload_after_marker_def marker_def example_world_def lookup_def js_eval)

text \<open>
  C2, amended. For an add-to-file command, the content appended is exactly the text after
  the first separator \<^verbatim>\<open> this content: \<close> in the remainder of the normalised command (byte-order
  mark stripped, trimmed, CR LF replaced by LF, verb phrase removed, trimmed). Whitespace at
  the start of the payload is kept; the content never ends in whitespace, since the command
  was trimmed. When the path resolves, is not a directory, no file stands in the way of its
  directories and the calls of the file system succeed, the file holds its old content
  followed by exactly that content.
\<close>

theorem append_payload_of_trimmed_command:
  assumes "startsWith (normalize_command raw) ADD_TO_FILE"
    and "rest = trim (substring_from (normalize_command raw) (length ADD_TO_FILE))"
    and "indexOf rest marker = Some i"
    and "content = substring_from rest (i + length marker)"
  shows "parseAndExecute raw w =
       addToFile (trim (substring_to rest i)) content
         (w\<lparr>log := log w @ [Info (CommandReceived (normalize_command raw))]\<rparr>)
     \<and> (content \<noteq> [] \<longrightarrow> \<not> isWhiteSpace (last content))
     \<and> (resolveSafePath (cwd w) (trim (substring_to rest i)) = Inr filePath
          \<and> lookup (nodes w) filePath \<noteq> Some Dir
          \<and> (\<forall>d \<in> set (dir_chain (path_dirname filePath)).
                \<forall>c. lookup (nodes w) d \<noteq> Some (File c))
          \<and> (\<forall>k<4. fault w (clock w + k) = None) \<longrightarrow>
        lookup (nodes (snd (parseAndExecute raw w))) filePath =
          Some (File ((case lookup (nodes w) filePath of Some (File c) \<Rightarrow> c | _ \<Rightarrow> [])
                       @ content)))"
proof (intro conjI impI)
  from assms(3) have i': "indexOf (trim (substring_from (normalize_command raw)
      (length ADD_TO_FILE))) marker = Some i"
    unfolding assms(2) .
  show p: "parseAndExecute raw w =
       addToFile (trim (substring_to rest i)) content
         (w\<lparr>log := log w @ [Info (CommandReceived (normalize_command raw))]\<rparr>)"
    unfolding assms(4) assms(2) by (rule parse_add [OF assms(1) i'])
  show "\<not> isWhiteSpace (last content)" if "content \<noteq> []"
  proof -
    from that have "rest \<noteq> []" "last content = last rest"
      by (auto simp: assms(4) substring_from_def)
    with trim_last [of "substring_from (normalize_command raw) (length ADD_TO_FILE)"]
    show ?thesis by (simp add: assms(2))
  qed
  assume a: "resolveSafePath (cwd w) (trim (substring_to rest i)) = Inr filePath
          \<and> lookup (nodes w) filePath \<noteq> Some Dir
          \<and> (\<forall>d \<in> set (dir_chain (path_dirname filePath)).
                \<forall>c. lookup (nodes w) d \<noteq> Some (File c))
          \<and> (\<forall>k<4. fault w (clock w + k) = None)"
  let ?w = "w\<lparr>log := log w @ [Info (CommandReceived (normalize_command raw))]\<rparr>"
  from a have "\<exists>w1. addToFile (trim (substring_to rest i)) content ?w = (Inr (), w1)
    \<and> lookup (nodes w1) filePath =
        Some (File ((case lookup (nodes ?w) filePath of Some (File c) \<Rightarrow> c | _ \<Rightarrow> [])
                     @ content))
    \<and> log w1 = log ?w @ [Success (ContentAppendedTo filePath)]"
    by (intro addToFile_appends) simp_all
  with p show "lookup (nodes (snd (parseAndExecute raw w))) filePath =
          Some (File ((case lookup (nodes w) filePath of Some (File c) \<Rightarrow> c | _ \<Rightarrow> [])
                       @ content))"
    by auto
qed

theorem append_payload_of_trimmed_command_witness:
  "startsWith (normalize_command (js ''add to the file c.txt this content:   hi  ''))
     ADD_TO_FILE
   \<and> indexOf (js ''c.txt this content:   hi'') marker = Some 5
   \<and> parseAndExecute (js ''add to the file c.txt this content:   hi  '') example_world =
       addToFile (js ''c.txt'') (js ''  hi'')
         (example_world\<lparr>log :=
            [Info (CommandReceived (js ''add to the file c.txt this content:   hi''))]\<rparr>)
   \<and> \<not> isWhiteSpace (last (js ''  hi''))
   \<and> lookup (nodes (snd (parseAndExecute (js ''add to the file c.txt this content:   hi  '')
         example_world))) (js ''/work/c.txt'') = Some (File (js ''  hi''))"
proof -
  let ?raw = "js ''add to the file c.txt this content:   hi  ''"
  have n: "normalize_command ?raw = js ''add to the file c.txt this content:   hi''"
    by (simp add: normalize_command_def js_eval)
  have s: "startsWith (normalize_command ?raw) ADD_TO_FILE"
    by (simp add: n) (simp add: ADD_TO_FILE_def js_eval)
  have r: "js ''c.txt this content:   hi''
      = trim (substring_from (normalize_command ?raw) (length ADD_TO_FILE))"
    by (simp add: n) (simp add: ADD_TO_FILE_def js_eval)
  have i: "indexOf (js ''c.txt this content:   hi'') marker = Some 5"
    by (simp add: marker_def js_eval)
  have c: "js ''  hi'' = substring_from (js ''c.txt this content:   hi'') (5 + length marker)"
    by (simp add: marker_def js_eval)
  have t: "trim (substring_to (js ''c.txt this content:   hi'') 5) = js ''c.txt''"
    by (simp add: js_eval)
  have l: "lookup (nodes example_world) (js ''/work/c.txt'') = None"
    "log example_world = []"
    by (simp_all add: example_world_def lookup_def js_def)
  have way: "\<forall>d \<in> set (dir_chain (path_dirname (js ''/work/c.txt''))).
      \<forall>c. lookup (nodes example_world) d \<noteq> Some (File c)"
    unfolding example_chain_c by (simp add: example_world_def lookup_def js_def)
  have nofault: "\<forall>k<4. fault example_world (clock example_world + k) = None"
    by (simp add: example_world_def)
  have ne: "js ''  hi'' \<noteq> []" by (simp add: js_def)
  note inst = append_payload_of_trimmed_command
    [OF s r i c, of example_world "js ''/work/c.txt''", unfolded t n]
  from inst have "parseAndExecute ?raw example_world =
       addToFile (js ''c.txt'') (js ''  hi'')
         (example_world\<lparr>log := log example_world @
            [Info (CommandReceived (js ''add to the file c.txt this content:   hi''))]\<rparr>)"
    by (rule conjunct1)
  then have p: "parseAndExecute ?raw example_world =
       addToFile (js ''c.txt'') (js ''  hi'')
         (example_world\<lparr>log :=
            [Info (CommandReceived (js ''add to the file c.txt this content:   hi''))]\<rparr>)"
    by (simp only: l append_Nil)
  from inst ne have w: "\<not> isWhiteSpace (last (js ''  hi''))" by blast
  from l(1) have nd: "lookup (nodes example_world) (js ''/work/c.txt'') \<noteq> Some Dir" by simp
  from inst example_resolve_c nd way nofault
  have "lookup (nodes (snd (parseAndExecute ?raw example_world))) (js ''/work/c.txt'') =
      Some (File ((case lookup (nodes example_world) (js ''/work/c.txt'') of
                     Some (File c) \<Rightarrow> c | _ \<Rightarrow> []) @ js ''  hi''))"
    by blast
  then have f: "lookup (nodes (snd (parseAndExecute ?raw example_world))) (js ''/work/c.txt'')
      = Some (File (js ''  hi''))"
    by (simp add: l(1))
  from s i p w f show ?thesis by blast
qed

end
